theory Spec2Isabelle
  imports Complex_Main "HOL-Library.Multiset"
begin

section \<open>JavaScript values, arrays and objects\<close>

text \<open>
  The values a column can hold (\<^verbatim>\<open>SeriesTypes = number | string | boolean | object | undefined\<close>).
  A number is an IEEE double; the model keeps its three non-finite values and reads a finite
  one as a real, so rounding, overflow and the sign of zero are not modelled. An object is
  known by its identity only.
\<close>

datatype jsnum = Fin real | PInf | NInf | NaN

datatype jsval = Undefined | Num jsnum | Str string | Bool bool | Obj nat

text \<open>
  A JavaScript array may have holes (\<^verbatim>\<open>Array(n)\<close>, or a write past the end): an element is
  \<open>None\<close> for a hole and \<open>Some v\<close> for a stored value. Reading a hole, or reading past the end,
  gives \<^verbatim>\<open>undefined\<close>; writing past the end extends the array with holes.
\<close>

type_synonym jsarray = "jsval option list"

definition js_at :: "jsarray \<Rightarrow> nat \<Rightarrow> jsval" where
  "js_at a i = (if i < length a then (case a ! i of None \<Rightarrow> Undefined | Some v \<Rightarrow> v) else Undefined)"

definition js_put :: "jsarray \<Rightarrow> nat \<Rightarrow> jsval \<Rightarrow> jsarray" where
  "js_put a i v =
     (if i < length a then a[i := Some v] else a @ replicate (i - length a) None @ [Some v])"

definition new_Array :: "nat \<Rightarrow> jsarray" where
  "new_Array n = replicate n None"

text \<open>An array literal, or the result of \<^verbatim>\<open>map\<close> over an array without holes: no holes.\<close>

definition dense :: "jsval list \<Rightarrow> jsarray" where
  "dense vs = map Some vs"

datatype jstype = T_undefined | T_number | T_string | T_boolean | T_object

fun typeof :: "jsval \<Rightarrow> jstype" where
  "typeof Undefined = T_undefined"
| "typeof (Num _) = T_number"
| "typeof (Str _) = T_string"
| "typeof (Bool _) = T_boolean"
| "typeof (Obj _) = T_object"

text \<open>Truthiness, as \<^verbatim>\<open>if (v)\<close>, \<^verbatim>\<open>v || 0\<close> and \<^verbatim>\<open>filter\<close> read a value.\<close>

fun truthy :: "jsval \<Rightarrow> bool" where
  "truthy Undefined = False"
| "truthy (Num (Fin x)) = (x \<noteq> 0)"
| "truthy (Num NaN) = False"
| "truthy (Num _) = True"
| "truthy (Str s) = (s \<noteq> [])"
| "truthy (Bool b) = b"
| "truthy (Obj _) = True"

text \<open>
  An object used as a dictionary (\<^verbatim>\<open>Record<string, T>\<close>) is an association list in insertion
  order: assigning to a key that is present keeps its place, a new key goes last.
  \<^verbatim>\<open>Object.assign(target, ...sources)\<close> assigns every entry of every source in order.
  (Keys that are canonical array indices, which JavaScript lists first, are not modelled.)
\<close>

type_synonym 'a jsobject = "(string \<times> 'a) list"

fun obj_set :: "'a jsobject \<Rightarrow> string \<Rightarrow> 'a \<Rightarrow> 'a jsobject" where
  "obj_set [] k v = [(k, v)]"
| "obj_set ((k', v') # kvs) k v =
     (if k' = k then (k, v) # kvs else (k', v') # obj_set kvs k v)"

definition assign_one :: "'a jsobject \<Rightarrow> 'a jsobject \<Rightarrow> 'a jsobject" where
  "assign_one target source = foldl (\<lambda>acc kv. obj_set acc (fst kv) (snd kv)) target source"

definition Object_assign :: "'a jsobject \<Rightarrow> 'a jsobject list \<Rightarrow> 'a jsobject" where
  "Object_assign target sources = foldl assign_one target sources"

definition Object_keys :: "'a jsobject \<Rightarrow> string list" where
  "Object_keys obj = map fst obj"

text \<open>The only exception the modelled code can raise: a property read on \<^verbatim>\<open>undefined\<close>.\<close>

datatype error = TypeError

definition ebind :: "error + 'a \<Rightarrow> ('a \<Rightarrow> error + 'b) \<Rightarrow> error + 'b" where
  "ebind m f = (case m of Inl e \<Rightarrow> Inl e | Inr x \<Rightarrow> f x)"

fun emap :: "('a \<Rightarrow> error + 'b) \<Rightarrow> 'a list \<Rightarrow> error + 'b list" where
  "emap f [] = Inr []"
| "emap f (x # xs) = ebind (f x) (\<lambda>y. ebind (emap f xs) (\<lambda>ys. Inr (y # ys)))"

section \<open>Series\<close>

text \<open>
  The four series classes of \<^verbatim>\<open>series.ts\<close>; each holds the array \<^verbatim>\<open>values\<close>. The casts
  \<^verbatim>\<open>array as number[]\<close> are unchecked, so any class can hold any value at run time.
  \<^verbatim>\<open>isNumber\<close> is the flag of src/unnamed/part_001: true for the class \<^verbatim>\<open>Series\<close> only.
\<close>

datatype column = Series jsarray | TextSeries jsarray | BoolSeries jsarray | ObjectSeries jsarray

fun values_of :: "column \<Rightarrow> jsarray" where
  "values_of (Series a) = a"
| "values_of (TextSeries a) = a"
| "values_of (BoolSeries a) = a"
| "values_of (ObjectSeries a) = a"

fun isNumber :: "column \<Rightarrow> bool" where
  "isNumber (Series a) = True"
| "isNumber _ = False"

text \<open>
  \<^verbatim>\<open>series(array)\<close> of src/unnamed/part_000 (lines 26-37): the class follows the type of the
  first element that is neither a hole nor \<^verbatim>\<open>undefined\<close>; \<^verbatim>\<open>series_ts\<close> is the function of
  src/src/dataframe.ts (lines 24-35), which looks at element 0 only.
\<close>

definition of_type :: "jstype \<Rightarrow> jsarray \<Rightarrow> column" where
  "of_type t array =
     (case t of T_number \<Rightarrow> Series array | T_string \<Rightarrow> TextSeries array
      | T_boolean \<Rightarrow> BoolSeries array | _ \<Rightarrow> ObjectSeries array)"

definition series :: "jsarray \<Rightarrow> column" where
  "series array =
     of_type (typeof (js_at (filter (\<lambda>e. e \<noteq> None \<and> e \<noteq> Some Undefined) array) 0)) array"

definition series_ts :: "jsarray \<Rightarrow> column" where
  "series_ts array = of_type (typeof (js_at array 0)) array"

section \<open>DataFrame\<close>

text \<open>
  The class \<^verbatim>\<open>DataFrame\<close>: the columns by name and the row-index. A column slot holds
  \<open>None\<close> when the object has the key bound to \<^verbatim>\<open>undefined\<close> (which \<^verbatim>\<open>include\<close> of an
  unknown name produces). Row positions are array positions: natural numbers.
\<close>

type_synonym Columns = "column option jsobject"

type_synonym Index = "nat list"

type_synonym RowRecord = "jsval jsobject"

record DataFrame =
  columns :: Columns
  index :: Index

text \<open>
  The constructor (part_000 lines 43-63, the same in src/src/dataframe.ts lines 41-61): a given
  index is taken as it is; without one the index counts the first column's length, and
  reading \<^verbatim>\<open>first.length\<close> of an undefined first column raises.
\<close>

definition new_DataFrame :: "Columns \<Rightarrow> Index option \<Rightarrow> error + DataFrame" where
  "new_DataFrame cols idx =
     (case idx of
        Some i \<Rightarrow> Inr \<lparr>columns = cols, index = i\<rparr>
      | None \<Rightarrow>
          (case cols of
             [] \<Rightarrow> Inr \<lparr>columns = cols, index = []\<rparr>
           | (n, first) # _ \<Rightarrow>
               (case first of
                  None \<Rightarrow> Inl TypeError
                | Some c \<Rightarrow> Inr \<lparr>columns = cols, index = [0..<length (values_of c)]\<rparr>)))"

definition names :: "DataFrame \<Rightarrow> string list" where
  "names F = Object_keys (columns F)"

definition column :: "DataFrame \<Rightarrow> string \<Rightarrow> column option" where
  "column F name = (case map_of (columns F) name of None \<Rightarrow> None | Some c \<Rightarrow> c)"

definition length_df :: "DataFrame \<Rightarrow> nat" where
  "length_df F = length (index F)"

text \<open>\<^verbatim>\<open>c.values\<close> for a column slot \<open>c\<close>: a \<^verbatim>\<open>TypeError\<close> when the slot is undefined.\<close>

definition values_in :: "column option \<Rightarrow> error + jsarray" where
  "values_in c = (case c of None \<Rightarrow> Inl TypeError | Some s \<Rightarrow> Inr (values_of s))"

text \<open>\<^verbatim>\<open>values(name)\<close> (part_000 lines 297-300): the visible values of one column.\<close>

definition values_df :: "DataFrame \<Rightarrow> string \<Rightarrow> error + jsarray" where
  "values_df F name =
     ebind (values_in (column F name)) (\<lambda>all. Inr (dense (map (\<lambda>i. js_at all i) (index F))))"

text \<open>\<^verbatim>\<open>record(index)\<close> (lines 279-284) and \<^verbatim>\<open>records\<close> (lines 287-289).\<close>

definition record_at :: "DataFrame \<Rightarrow> nat \<Rightarrow> error + RowRecord" where
  "record_at F i =
     ebind (emap (\<lambda>x. ebind (values_in (column F x)) (\<lambda>vs. Inr [(x, js_at vs i)])) (names F))
       (\<lambda>parts. Inr (Object_assign [] parts))"

definition records :: "DataFrame \<Rightarrow> error + RowRecord list" where
  "records F = emap (record_at F) (index F)"

text \<open>\<^verbatim>\<open>reindex\<close> (lines 203-205): the same columns under another index.\<close>

definition reindex :: "DataFrame \<Rightarrow> Index \<Rightarrow> error + DataFrame" where
  "reindex F idx = new_DataFrame (columns F) (Some idx)"

text \<open>
  \<^verbatim>\<open>include\<close> (part_000 lines 113-118, src/src/dataframe.ts lines 103-108) and \<^verbatim>\<open>exclude\<close>
  (lines 121-124, 111-114).
\<close>

definition include_cols :: "DataFrame \<Rightarrow> string list \<Rightarrow> error + DataFrame" where
  "include_cols F ns =
     new_DataFrame (Object_assign [] (map (\<lambda>x. [(x, column F x)]) ns)) (Some (index F))"

definition exclude_cols :: "DataFrame \<Rightarrow> string list \<Rightarrow> error + DataFrame" where
  "exclude_cols F ns = include_cols F (filter (\<lambda>n. n \<notin> set ns) (names F))"

text \<open>\<^verbatim>\<open>join\<close> (part_000 lines 230-232, src/src/dataframe.ts lines 211-213).\<close>

definition join :: "DataFrame \<Rightarrow> DataFrame \<Rightarrow> error + DataFrame" where
  "join F other = new_DataFrame (Object_assign [] [columns F, columns other]) None"

section \<open>Numbers\<close>

text \<open>
  Arithmetic on numbers with the IEEE rules for the non-finite values. \<^verbatim>\<open>to_number\<close> is the
  conversion the arithmetic operators apply to an operand; the conversion of a string or an
  object to a number is not modelled (it reads as \<^verbatim>\<open>NaN\<close>), and the theorems that depend on
  it are stated for columns of numbers and absent entries.
\<close>

fun js_neg :: "jsnum \<Rightarrow> jsnum" where
  "js_neg (Fin x) = Fin (- x)"
| "js_neg PInf = NInf"
| "js_neg NInf = PInf"
| "js_neg NaN = NaN"

fun js_add :: "jsnum \<Rightarrow> jsnum \<Rightarrow> jsnum" where
  "js_add (Fin x) (Fin y) = Fin (x + y)"
| "js_add NaN _ = NaN"
| "js_add _ NaN = NaN"
| "js_add PInf NInf = NaN"
| "js_add NInf PInf = NaN"
| "js_add PInf _ = PInf"
| "js_add _ PInf = PInf"
| "js_add NInf _ = NInf"
| "js_add _ NInf = NInf"

definition js_sub :: "jsnum \<Rightarrow> jsnum \<Rightarrow> jsnum" where
  "js_sub a b = js_add a (js_neg b)"

fun js_mul :: "jsnum \<Rightarrow> jsnum \<Rightarrow> jsnum" where
  "js_mul (Fin x) (Fin y) = Fin (x * y)"
| "js_mul NaN _ = NaN"
| "js_mul _ NaN = NaN"
| "js_mul (Fin x) b = (if x = 0 then NaN else if 0 < x then b else js_neg b)"
| "js_mul a (Fin y) = (if y = 0 then NaN else if 0 < y then a else js_neg a)"
| "js_mul PInf b = b"
| "js_mul NInf b = js_neg b"

fun js_div :: "jsnum \<Rightarrow> jsnum \<Rightarrow> jsnum" where
  "js_div (Fin x) (Fin y) =
     (if y \<noteq> 0 then Fin (x / y) else if x = 0 then NaN else if 0 < x then PInf else NInf)"
| "js_div NaN _ = NaN"
| "js_div _ NaN = NaN"
| "js_div (Fin x) _ = Fin 0"
| "js_div PInf (Fin y) = (if 0 \<le> y then PInf else NInf)"
| "js_div NInf (Fin y) = (if 0 \<le> y then NInf else PInf)"
| "js_div _ _ = NaN"

fun js_abs :: "jsnum \<Rightarrow> jsnum" where
  "js_abs (Fin x) = Fin \<bar>x\<bar>"
| "js_abs NaN = NaN"
| "js_abs _ = PInf"

fun js_sqrt :: "jsnum \<Rightarrow> jsnum" where
  "js_sqrt (Fin x) = (if 0 \<le> x then Fin (sqrt x) else NaN)"
| "js_sqrt PInf = PInf"
| "js_sqrt _ = NaN"

fun js_log :: "jsnum \<Rightarrow> jsnum" where
  "js_log (Fin x) = (if 0 < x then Fin (ln x) else if x = 0 then NInf else NaN)"
| "js_log PInf = PInf"
| "js_log _ = NaN"

fun js_lt :: "jsnum \<Rightarrow> jsnum \<Rightarrow> bool" where
  "js_lt (Fin x) (Fin y) = (x < y)"
| "js_lt NaN _ = False"
| "js_lt _ NaN = False"
| "js_lt NInf NInf = False"
| "js_lt NInf _ = True"
| "js_lt (Fin x) PInf = True"
| "js_lt _ _ = False"

fun to_number :: "jsval \<Rightarrow> jsnum" where
  "to_number (Num n) = n"
| "to_number (Bool b) = Fin (if b then 1 else 0)"
| "to_number _ = NaN"

text \<open>Strings compare by code units, lexicographically.\<close>

fun str_lt :: "string \<Rightarrow> string \<Rightarrow> bool" where
  "str_lt [] [] = False"
| "str_lt [] (y # ys) = True"
| "str_lt (x # xs) [] = False"
| "str_lt (x # xs) (y # ys) =
     ((of_char x :: nat) < of_char y \<or> (x = y \<and> str_lt xs ys))"

text \<open>The operator \<^verbatim>\<open><\<close>: two strings compare as strings, anything else as numbers.\<close>

fun js_less :: "jsval \<Rightarrow> jsval \<Rightarrow> bool" where
  "js_less (Str s) (Str t) = str_lt s t"
| "js_less a b = js_lt (to_number a) (to_number b)"

text \<open>\<^verbatim>\<open>v || 0\<close>.\<close>

definition or_zero :: "jsval \<Rightarrow> jsval" where
  "or_zero v = (if truthy v then v else Num (Fin 0))"

text \<open>
  \<^verbatim>\<open>Array.prototype.sort(compare)\<close>, as a stable insertion sort: each element goes before the
  first element of the sorted prefix it compares below. (For a comparator that is not
  consistent the language leaves the order to the implementation.)
\<close>

fun insert_by :: "('a \<Rightarrow> 'a \<Rightarrow> int) \<Rightarrow> 'a \<Rightarrow> 'a list \<Rightarrow> 'a list" where
  "insert_by cmp x [] = [x]"
| "insert_by cmp x (y # ys) = (if cmp x y < 0 then x # y # ys else y # insert_by cmp x ys)"

definition js_sort :: "('a \<Rightarrow> 'a \<Rightarrow> int) \<Rightarrow> 'a list \<Rightarrow> 'a list" where
  "js_sort cmp xs = foldl (\<lambda>acc x. insert_by cmp x acc) [] xs"

text \<open>\<^verbatim>\<open>Array.prototype.slice(start, end)\<close> for integer bounds.\<close>

definition js_slice :: "'a list \<Rightarrow> int \<Rightarrow> int \<Rightarrow> 'a list" where
  "js_slice xs start fin =
     (let len = int (length xs);
          k = (if start < 0 then max (len + start) 0 else min start len);
          e = (if fin < 0 then max (len + fin) 0 else min fin len)
      in take (nat (e - k)) (drop (nat k) xs))"

text \<open>
  \<^verbatim>\<open>Array.prototype.indexOf\<close>: the first position holding a value strictly equal to the key;
  holes are skipped and \<^verbatim>\<open>NaN\<close> equals nothing.
\<close>

definition strict_eq :: "jsval \<Rightarrow> jsval \<Rightarrow> bool" where
  "strict_eq a b = (a = b \<and> a \<noteq> Num NaN)"

fun indexOf_from :: "nat \<Rightarrow> jsarray \<Rightarrow> jsval \<Rightarrow> nat option" where
  "indexOf_from k [] key = None"
| "indexOf_from k (e # es) key =
     (case e of
        None \<Rightarrow> indexOf_from (Suc k) es key
      | Some v \<Rightarrow> if strict_eq v key then Some k else indexOf_from (Suc k) es key)"

definition indexOf :: "jsarray \<Rightarrow> jsval \<Rightarrow> nat option" where
  "indexOf a key = indexOf_from 0 a key"

section \<open>Construction from records\<close>

text \<open>\<^verbatim>\<open>rec[name]\<close>: the value of a property, \<^verbatim>\<open>undefined\<close> when the record lacks it.\<close>

definition prop_of :: "RowRecord \<Rightarrow> string \<Rightarrow> jsval" where
  "prop_of r name = (case map_of r name of None \<Rightarrow> Undefined | Some v \<Rightarrow> v)"

text \<open>
  \<^verbatim>\<open>fromRecords\<close> of part_000 (lines 66-87): the records are transposed into one array per
  key, in the order the keys are first seen; a key's array starts as
  \<^verbatim>\<open>new Array(records.length).with(index, value)\<close>, which has no holes.
\<close>

definition put_cell :: "nat \<Rightarrow> nat \<Rightarrow> jsarray jsobject \<Rightarrow> string \<times> jsval \<Rightarrow> jsarray jsobject" where
  "put_cell n i arrays kv =
     (case map_of arrays (fst kv) of
        None \<Rightarrow> obj_set arrays (fst kv) ((replicate n (Some Undefined))[i := Some (snd kv)])
      | Some a \<Rightarrow> obj_set arrays (fst kv) (js_put a i (snd kv)))"

definition transpose_records :: "RowRecord list \<Rightarrow> jsarray jsobject" where
  "transpose_records rs =
     foldl (\<lambda>arrays ir. foldl (put_cell (length rs) (fst ir)) arrays (snd ir)) []
       (zip [0..<length rs] rs)"

definition fromRecords :: "RowRecord list \<Rightarrow> error + DataFrame" where
  "fromRecords rs =
     new_DataFrame
       (Object_assign [] (map (\<lambda>ka. [(fst ka, Some (series (snd ka)))]) (transpose_records rs)))
       None"

text \<open>
  \<^verbatim>\<open>fromRecords\<close> of src/src/dataframe.ts (lines 64-77): the keys of the first record only;
  \<^verbatim>\<open>Object.keys(records[0])\<close> raises on an empty list.
\<close>

definition fromRecords_ts :: "RowRecord list \<Rightarrow> error + DataFrame" where
  "fromRecords_ts rs =
     (case rs of
        [] \<Rightarrow> Inl TypeError
      | r0 # _ \<Rightarrow>
          new_DataFrame
            (Object_assign []
               (map (\<lambda>name. [(name, Some (series_ts (dense (map (\<lambda>r. prop_of r name) rs))))])
                  (Object_keys r0)))
            None)"

text \<open>\<^verbatim>\<open>fromDef\<close> (part_000 lines 90-110, src/src/dataframe.ts lines 80-100).\<close>

datatype ColumnTypeName = CT_number | CT_string | CT_bool | CT_object

definition declared :: "ColumnTypeName \<Rightarrow> jsarray \<Rightarrow> column" where
  "declared t vs =
     (case t of CT_number \<Rightarrow> Series vs | CT_string \<Rightarrow> TextSeries vs
      | CT_bool \<Rightarrow> BoolSeries vs | CT_object \<Rightarrow> ObjectSeries vs)"

definition fromDef :: "ColumnTypeName jsobject \<Rightarrow> RowRecord list \<Rightarrow> error + DataFrame" where
  "fromDef header rs =
     new_DataFrame
       (Object_assign []
          (map (\<lambda>nt. [(fst nt, Some (declared (snd nt) (dense (map (\<lambda>r. prop_of r (fst nt)) rs))))])
             header))
       None"

section \<open>View operations\<close>

text \<open>\<^verbatim>\<open>select\<close> (part_000 lines 208-212): the rows whose record the callback finds truthy.\<close>

definition select :: "DataFrame \<Rightarrow> (RowRecord \<Rightarrow> jsval) \<Rightarrow> error + DataFrame" where
  "select F callback =
     ebind (emap (\<lambda>i. ebind (record_at F i) (\<lambda>r. Inr (i, truthy (callback r)))) (index F))
       (\<lambda>marks. reindex F (map fst (filter snd marks)))"

text \<open>
  \<^verbatim>\<open>sort\<close> of part_000 (lines 176-185); \<^verbatim>\<open>sort_ts\<close> is src/src/dataframe.ts (lines 163-172),
  ascending only.
\<close>

definition compare_rows :: "bool \<Rightarrow> nat \<times> jsval \<Rightarrow> nat \<times> jsval \<Rightarrow> int" where
  "compare_rows ascending a b =
     (if ascending
      then (if js_less (or_zero (snd a)) (or_zero (snd b)) then - 1 else 1)
      else (if js_less (or_zero (snd b)) (or_zero (snd a)) then - 1 else 1))"

definition sort_rows :: "DataFrame \<Rightarrow> string \<Rightarrow> bool \<Rightarrow> error + DataFrame" where
  "sort_rows F colname ascending =
     ebind (values_in (column F colname))
       (\<lambda>vs. reindex F
          (map fst (js_sort (compare_rows ascending) (map (\<lambda>i. (i, js_at vs i)) (index F)))))"

definition sort_ts :: "DataFrame \<Rightarrow> string \<Rightarrow> error + DataFrame" where
  "sort_ts F colname =
     ebind (values_in (column F colname))
       (\<lambda>vs. new_DataFrame (columns F)
          (Some (map fst (js_sort (compare_rows True) (map (\<lambda>i. (i, js_at vs i)) (index F))))))"

text \<open>
  \<^verbatim>\<open>reverse\<close> (part_000 lines 215-217, on a copy of the index), \<^verbatim>\<open>slice\<close> (lines 220-222) and
  \<^verbatim>\<open>shuffle\<close> (lines 225-227), whose permutation comes from the library function
  \<^verbatim>\<open>shuffleArray\<close>, a parameter here.
\<close>

definition reverse :: "DataFrame \<Rightarrow> error + DataFrame" where
  "reverse F = reindex F (rev (index F))"

definition slice :: "DataFrame \<Rightarrow> int \<Rightarrow> int \<Rightarrow> error + DataFrame" where
  "slice F start fin = reindex F (js_slice (index F) start fin)"

definition shuffle :: "(Index \<Rightarrow> Index) \<Rightarrow> DataFrame \<Rightarrow> error + DataFrame" where
  "shuffle shuffleArray F = reindex F (shuffleArray (index F))"

text \<open>\<^verbatim>\<open>rename\<close> (part_000 lines 235-242).\<close>

definition rename :: "DataFrame \<Rightarrow> string jsobject \<Rightarrow> error + DataFrame" where
  "rename F ns =
     new_DataFrame
       (foldl (\<lambda>cols fc. obj_set cols (case map_of ns (fst fc) of None \<Rightarrow> fst fc | Some t \<Rightarrow> t) (snd fc))
          [] (columns F))
       (Some (index F))"

section \<open>Derived columns\<close>

text \<open>
  \<^verbatim>\<open>generate\<close> of part_000 (lines 153-160): the new array has the length of the column and
  takes the callback's result at the storage position of every visible row whose value is
  not absent; every other position stays a hole.
\<close>

definition generate :: "DataFrame \<Rightarrow> string \<Rightarrow> (jsval \<Rightarrow> jsval) \<Rightarrow> error + column" where
  "generate F name callback =
     ebind (values_in (column F name))
       (\<lambda>current. Inr (Series
          (foldl (\<lambda>vs i. if js_at current i \<noteq> Undefined then js_put vs i (callback (js_at current i)) else vs)
             (new_Array (length current)) (index F))))"

text \<open>
  \<^verbatim>\<open>generate\<close> of src/src/dataframe.ts (lines 140-147): the new array lists the results in
  the order of the row-index.
\<close>

definition generate_ts :: "DataFrame \<Rightarrow> string \<Rightarrow> (jsval \<Rightarrow> jsval) \<Rightarrow> error + column" where
  "generate_ts F name callback =
     ebind (values_in (column F name))
       (\<lambda>current. Inr (Series
          (dense (map (\<lambda>i. if js_at current i = Undefined then Undefined else callback (js_at current i))
             (index F)))))"

text \<open>\<^verbatim>\<open>replace\<close> and \<^verbatim>\<open>derive\<close> (part_000 lines 245-254, src/src/dataframe.ts lines 226-235).\<close>

definition replace :: "DataFrame \<Rightarrow> string \<Rightarrow> column \<Rightarrow> error + DataFrame" where
  "replace F name col =
     new_DataFrame (obj_set (Object_assign [] [columns F]) name (Some col)) (Some (index F))"

definition derive :: "DataFrame \<Rightarrow> string \<Rightarrow> (jsval \<Rightarrow> jsval) \<Rightarrow> error + DataFrame" where
  "derive F name callback = ebind (generate F name callback) (replace F name)"

definition derive_ts :: "DataFrame \<Rightarrow> string \<Rightarrow> (jsval \<Rightarrow> jsval) \<Rightarrow> error + DataFrame" where
  "derive_ts F name callback = ebind (generate_ts F name callback) (replace F name)"

text \<open>
  The callbacks of \<^verbatim>\<open>log\<close>, \<^verbatim>\<open>scale\<close> and \<^verbatim>\<open>add\<close> (part_000 lines 264-276): \<^verbatim>\<open>Math.log(n)\<close>,
  \<^verbatim>\<open>n * factor\<close> and \<^verbatim>\<open>n + operand\<close> on a number \<open>n\<close> (for a string \<open>n\<close> the last one
  concatenates, which is not modelled).
\<close>

definition log_cb :: "jsval \<Rightarrow> jsval" where
  "log_cb n = Num (js_log (to_number n))"

definition scale_cb :: "jsnum \<Rightarrow> jsval \<Rightarrow> jsval" where
  "scale_cb factor n = Num (js_mul (to_number n) factor)"

definition add_cb :: "jsnum \<Rightarrow> jsval \<Rightarrow> jsval" where
  "add_cb operand n = Num (js_add (to_number n) operand)"

definition log_col :: "DataFrame \<Rightarrow> string \<Rightarrow> error + DataFrame" where
  "log_col F name = derive F name log_cb"

definition scale :: "DataFrame \<Rightarrow> string \<Rightarrow> jsnum \<Rightarrow> error + DataFrame" where
  "scale F name factor = derive F name (scale_cb factor)"

definition add_col :: "DataFrame \<Rightarrow> string \<Rightarrow> jsnum \<Rightarrow> error + DataFrame" where
  "add_col F name operand = derive F name (add_cb operand)"

definition log_ts :: "DataFrame \<Rightarrow> string \<Rightarrow> error + DataFrame" where
  "log_ts F name = derive_ts F name log_cb"

definition scale_ts :: "DataFrame \<Rightarrow> string \<Rightarrow> jsnum \<Rightarrow> error + DataFrame" where
  "scale_ts F name factor = derive_ts F name (scale_cb factor)"

definition add_ts :: "DataFrame \<Rightarrow> string \<Rightarrow> jsnum \<Rightarrow> error + DataFrame" where
  "add_ts F name operand = derive_ts F name (add_cb operand)"

text \<open>
  \<^verbatim>\<open>amend\<close> of part_000 (lines 188-200): an array of as many holes as there are visible rows
  takes each row's result at the row's storage position; the row-index is kept.
\<close>

definition amend :: "DataFrame \<Rightarrow> string \<Rightarrow> (RowRecord \<Rightarrow> jsval) \<Rightarrow> error + DataFrame" where
  "amend F name callback =
     ebind (emap (\<lambda>i. ebind (record_at F i) (\<lambda>row. Inr (i, callback row))) (index F))
       (\<lambda>results.
          new_DataFrame
            (Object_assign []
               [columns F,
                [(name, Some (series (foldl (\<lambda>array iv. js_put array (fst iv) (snd iv))
                                        (new_Array (length_df F)) results)))]])
            (Some (index F)))"

text \<open>
  \<^verbatim>\<open>amend\<close> of src/src/dataframe.ts (lines 175-181): the results in the order of the
  row-index; the new Frame is built without an index.
\<close>

definition amend_ts :: "DataFrame \<Rightarrow> string \<Rightarrow> (RowRecord \<Rightarrow> jsval) \<Rightarrow> error + DataFrame" where
  "amend_ts F name callback =
     ebind (emap (record_at F) (index F))
       (\<lambda>rows.
          new_DataFrame
            (Object_assign [] [columns F, [(name, Some (series_ts (dense (map callback rows))))]])
            None)"

section \<open>Outliers, joins and correlations\<close>

text \<open>
  \<^verbatim>\<open>outlier\<close> (part_000 lines 333-354). The mean and the standard deviation come from the
  library functions \<^verbatim>\<open>avg\<close> and \<^verbatim>\<open>std\<close>, parameters here. \<^verbatim>\<open>ratio\<close> is the expression
  \<^verbatim>\<open>Math.abs(mean - val) / stdv\<close>; a row position is skipped when the ratio exceeds the
  factor in some column whose \<^verbatim>\<open>isNumber\<close> holds.
\<close>

definition ratio :: "jsnum \<Rightarrow> jsnum \<Rightarrow> jsval \<Rightarrow> jsnum" where
  "ratio mean stdv val = js_div (js_abs (js_sub mean (to_number val))) stdv"

definition skips :: "(jsarray \<Rightarrow> jsnum) \<Rightarrow> (jsarray \<Rightarrow> jsnum) \<Rightarrow> jsnum \<Rightarrow> DataFrame \<Rightarrow>
    string \<times> column option \<Rightarrow> error + nat list" where
  "skips avg std factor F entry =
     (case snd entry of
        None \<Rightarrow> Inl TypeError
      | Some c \<Rightarrow>
          if isNumber c
          then ebind (values_df F (fst entry))
                 (\<lambda>col. Inr (filter (\<lambda>i. js_lt factor (ratio (avg col) (std col) (js_at (values_of c) i)))
                                  (index F)))
          else Inr [])"

definition outlier :: "(jsarray \<Rightarrow> jsnum) \<Rightarrow> (jsarray \<Rightarrow> jsnum) \<Rightarrow> jsnum \<Rightarrow> DataFrame \<Rightarrow>
    error + DataFrame" where
  "outlier avg std factor F =
     ebind (emap (skips avg std factor F) (columns F))
       (\<lambda>skip. reindex F (filter (\<lambda>i. i \<notin> set (concat skip)) (index F)))"

text \<open>
  \<^verbatim>\<open>leftJoin\<close> (part_000 lines 357-391). \<^verbatim>\<open>rowmap_of\<close> is the loop over the keys,
  \<^verbatim>\<open>copy_rows\<close> the loop that fills one new column, starting from the empty array.
\<close>

definition visited :: "jsarray \<Rightarrow> jsval list" where
  "visited a = concat (map (\<lambda>e. case e of None \<Rightarrow> [] | Some v \<Rightarrow> [v]) a)"

definition rowmap_of :: "jsarray \<Rightarrow> jsarray \<Rightarrow> jsval list \<Rightarrow> (nat option \<times> nat) list" where
  "rowmap_of source target keys =
     concat (map (\<lambda>key. case indexOf target key of
                           None \<Rightarrow> []
                         | Some targetRow \<Rightarrow> [(indexOf source key, targetRow)]) keys)"

definition copy_rows :: "jsarray \<Rightarrow> (nat option \<times> nat) list \<Rightarrow> jsarray" where
  "copy_rows sourceColumn rowmap =
     foldl (\<lambda>vs st. js_put vs (snd st)
                      (case fst st of None \<Rightarrow> Undefined | Some sourceRow \<Rightarrow> js_at sourceColumn sourceRow))
       [] rowmap"

definition leftJoin :: "DataFrame \<Rightarrow> DataFrame \<Rightarrow> string \<Rightarrow> error + DataFrame" where
  "leftJoin F other name =
     ebind (values_in (column other name)) (\<lambda>source.
     ebind (values_in (column F name)) (\<lambda>target.
     ebind (values_df other name) (\<lambda>keys.
     ebind (emap (\<lambda>n. ebind (values_in (column other n))
                        (\<lambda>sourceColumn. Inr [(n, Some (series (copy_rows sourceColumn
                                                    (rowmap_of source target (visited keys)))))]))
              (filter (\<lambda>n. n \<noteq> name) (names other))) (\<lambda>cols.
     ebind (new_DataFrame (Object_assign [] cols) None) (\<lambda>added. join F added)))))"

text \<open>
  \<^verbatim>\<open>correlationMatrix\<close> of part_000 (lines 129-150); the coefficient comes from the library
  function \<^verbatim>\<open>correlation\<close>, a parameter here, applied to the two columns' \<^verbatim>\<open>values\<close>.
\<close>

definition correlationMatrix :: "(jsarray \<Rightarrow> jsarray \<Rightarrow> jsnum) \<Rightarrow> DataFrame \<Rightarrow> DataFrame \<Rightarrow>
    error + DataFrame" where
  "correlationMatrix correlation F other =
     ebind (emap (\<lambda>colname.
              ebind (emap (\<lambda>rowname.
                       ebind (values_in (column other colname)) (\<lambda>sc.
                       ebind (values_in (column F rowname)) (\<lambda>sr. Inr (Num (correlation sc sr)))))
                     (names F))
                (\<lambda>results. Inr [(colname, Some (Series (dense results)))]))
            (names other))
       (\<lambda>cols. new_DataFrame
          (Object_assign [(''Name'', Some (TextSeries (dense (map Str (names F)))))] cols) None)"

text \<open>
  The statistics of the class \<^verbatim>\<open>Series\<close> in src/src/dataframe.ts (lines 415-460):
  \<^verbatim>\<open>derive\<close>, \<^verbatim>\<open>pow2\<close>, \<^verbatim>\<open>dot\<close>, \<^verbatim>\<open>sum\<close> and \<^verbatim>\<open>correlation\<close>.
\<close>

definition Series_derive :: "(jsval \<Rightarrow> jsval) \<Rightarrow> jsarray \<Rightarrow> jsarray" where
  "Series_derive callback vs = map (map_option (\<lambda>n. if n \<noteq> Undefined then callback n else Undefined)) vs"

definition pow2 :: "jsarray \<Rightarrow> jsarray" where
  "pow2 vs = Series_derive (\<lambda>n. Num (js_mul (to_number n) (to_number n))) vs"

definition dot :: "jsarray \<Rightarrow> jsarray \<Rightarrow> jsarray" where
  "dot vs other =
     dense (map (\<lambda>i. if js_at vs i \<noteq> Undefined \<and> js_at other i \<noteq> Undefined
                      then Num (js_mul (to_number (js_at vs i)) (to_number (js_at other i)))
                      else Undefined)
              [0..<length vs])"

definition Series_sum :: "jsarray \<Rightarrow> jsnum" where
  "Series_sum vs =
     foldl (\<lambda>sum a. js_add sum (if a \<noteq> Undefined then to_number a else Fin 0)) (Fin 0) (visited vs)"

definition Series_correlation :: "jsarray \<Rightarrow> jsarray \<Rightarrow> jsnum" where
  "Series_correlation vs other =
     (let n = Fin (real (length vs));
          x = Series_sum vs;
          y = Series_sum other;
          x2 = Series_sum (pow2 vs);
          y2 = Series_sum (pow2 other);
          xy = Series_sum (dot vs other)
      in js_div (js_sub (js_mul n xy) (js_mul x y))
           (js_sqrt (js_mul (js_sub (js_mul n x2) (js_mul x x)) (js_sub (js_mul n y2) (js_mul y y)))))"

text \<open>
  \<^verbatim>\<open>correlationMatrix\<close> of src/src/dataframe.ts (lines 119-137): \<^verbatim>\<open>sr.correlation(sc)\<close> is a
  method of the class \<^verbatim>\<open>Series\<close> only and reads \<^verbatim>\<open>other.pow2.sum\<close>, so the call raises unless
  both columns are of that class.
\<close>

definition method_correlation :: "column option \<Rightarrow> column option \<Rightarrow> error + jsnum" where
  "method_correlation sr sc =
     (case (sr, sc) of
        (Some (Series vs), Some (Series other)) \<Rightarrow> Inr (Series_correlation vs other)
      | _ \<Rightarrow> Inl TypeError)"

definition correlationMatrix_ts :: "DataFrame \<Rightarrow> DataFrame \<Rightarrow> error + DataFrame" where
  "correlationMatrix_ts F other =
     ebind (emap (\<lambda>colname.
              ebind (emap (\<lambda>rowname.
                       ebind (method_correlation (column F rowname) (column other colname))
                         (\<lambda>coef. Inr (Num coef)))
                     (names F))
                (\<lambda>results. Inr [(colname, Some (Series (dense results)))]))
            (names other))
       (\<lambda>cols. new_DataFrame
          (Object_assign [(''Keys'', Some (TextSeries (dense (map Str (names F)))))] cols) None)"

section \<open>The row-index as a shared array\<close>

text \<open>
  In src/src/dataframe.ts \<^verbatim>\<open>reverse\<close> (lines 196-198) and \<^verbatim>\<open>shuffle\<close> (lines 206-208) call
  \<^verbatim>\<open>Array.prototype.reverse\<close> and \<^verbatim>\<open>Array.prototype.sort\<close> on \<^verbatim>\<open>this.index\<close> itself; both
  work in place and return the array they were called on. To see that, the index arrays
  live in a store and a Frame object holds the address of its index. \<^verbatim>\<open>arrange\<close> stands for
  the order in which the sort with the random comparator leaves the array.
\<close>

type_synonym addr = nat

type_synonym store = "Index list"

record DataFrame_obj =
  columns_of :: Columns
  index_at :: addr

definition view :: "store \<Rightarrow> DataFrame_obj \<Rightarrow> DataFrame" where
  "view s F = \<lparr>columns = columns_of F, index = s ! index_at F\<rparr>"

definition reverse_ts :: "DataFrame_obj \<Rightarrow> store \<Rightarrow> DataFrame_obj \<times> store" where
  "reverse_ts F s =
     (\<lparr>columns_of = columns_of F, index_at = index_at F\<rparr>, s[index_at F := rev (s ! index_at F)])"

definition shuffle_ts :: "(Index \<Rightarrow> Index) \<Rightarrow> DataFrame_obj \<Rightarrow> store \<Rightarrow> DataFrame_obj \<times> store" where
  "shuffle_ts arrange F s =
     (\<lparr>columns_of = columns_of F, index_at = index_at F\<rparr>, s[index_at F := arrange (s ! index_at F)])"

text \<open>
  \<^verbatim>\<open>reverse\<close> of part_000 (lines 215-217) on the same store: \<^verbatim>\<open>this.index.slice()\<close> allocates
  a copy, and the copy is reversed.
\<close>

definition reverse_obj :: "DataFrame_obj \<Rightarrow> store \<Rightarrow> DataFrame_obj \<times> store" where
  "reverse_obj F s =
     (\<lparr>columns_of = columns_of F, index_at = length s\<rparr>, s @ [rev (s ! index_at F)])"

section \<open>Predicates and example Frames of the statements\<close>

text \<open>Two Frames of two rows each: one sliced to its second row, one reversed.\<close>

definition sliced_n :: DataFrame where
  "sliced_n = \<lparr>columns = [(''n'', Some (Series [Some (Num (Fin 1)), Some (Num (Fin 3))]))], index = [1]\<rparr>"

definition reversed_o :: DataFrame where
  "reversed_o = \<lparr>columns = [(''o'', Some (Series [Some (Num (Fin 4)), Some (Num (Fin 5))]))], index = [1, 0]\<rparr>"

text \<open>A transform of a present value that leaves an absent one absent.\<close>

definition lifted :: "(jsval \<Rightarrow> jsval) \<Rightarrow> jsval \<Rightarrow> jsval" where
  "lifted cb v = (if v = Undefined then Undefined else cb v)"

text \<open>A Frame of two rows under the reversed row-index.\<close>

definition reversed_n :: DataFrame where
  "reversed_n = \<lparr>columns = [(''n'', Some (Series [Some (Num (Fin 1)), Some (Num (Fin 3))]))], index = [1, 0]\<rparr>"

text \<open>A Frame object of two rows whose index is the array at address 0 of the store.\<close>

definition object_n :: DataFrame_obj where
  "object_n = \<lparr>columns_of = [(''n'', Some (Series [Some (Num (Fin 1)), Some (Num (Fin 3))]))], index_at = 0\<rparr>"

text \<open>
  The natural view: the row-index lists every storage position once, in storage order, and
  every column is defined and has that many positions.
\<close>

definition natural :: "DataFrame \<Rightarrow> nat \<Rightarrow> bool" where
  "natural F L =
     (index F = [0..<L] \<and>
      list_all (\<lambda>kc. case snd kc of None \<Rightarrow> False | Some c \<Rightarrow> length (values_of c) = L) (columns F))"

text \<open>The callback of the test "Generate Column" and a Frame of two rows in the natural view.\<close>

definition negate_n :: "RowRecord \<Rightarrow> jsval" where
  "negate_n r = (if prop_of r ''n'' \<noteq> Undefined then Num (js_neg (to_number (prop_of r ''n''))) else Undefined)"

definition natural_n :: DataFrame where
  "natural_n = \<lparr>columns = [(''n'', Some (Series [Some (Num (Fin 1)), Some (Num (Fin 3))]))], index = [0, 1]\<rparr>"

text \<open>
  The invariant of C1 with the storage length \<open>L\<close> made explicit: every column slot is a
  defined column whose array has \<open>L\<close> positions, and every entry of the row-index is below
  \<open>L\<close>.
\<close>

definition slot_ok :: "nat \<Rightarrow> string \<times> column option \<Rightarrow> bool" where
  "slot_ok L kc = (case snd kc of None \<Rightarrow> False | Some c \<Rightarrow> length (values_of c) = L)"

definition index_valid :: "DataFrame \<Rightarrow> nat \<Rightarrow> bool" where
  "index_valid F L = (list_all (slot_ok L) (columns F) \<and> list_all (\<lambda>i. i < L) (index F))"

text \<open>Two records with the one key \<open>n\<close>.\<close>

definition two_records :: "RowRecord list" where
  "two_records = [[(''n'', Num (Fin 1))], [(''n'', Num (Fin 3))]]"

text \<open>
  The number a value is compared as (\<^verbatim>\<open>v || 0\<close>, then the conversion of \<^verbatim>\<open><\<close>), the values
  the ordering is stated for, and the order of two row positions in the result: under
  \<open>ascending\<close> the later row's number is not below the earlier one's, otherwise the earlier
  row's number is not below the later one's.
\<close>

definition sort_key :: "jsval \<Rightarrow> jsnum" where
  "sort_key v = to_number (or_zero v)"

fun numeric_or_absent :: "jsval \<Rightarrow> bool" where
  "numeric_or_absent Undefined = True"
| "numeric_or_absent (Num n) = True"
| "numeric_or_absent v = False"










text \<open>
  What C5 says a new column holds at the position \<open>t\<close>: when \<open>t\<close> is the first position of the
  target key column holding its key and that key is among the visible keys of the other
  Frame, the source column's value at the first source position holding the key; otherwise
  nothing.
\<close>

definition joined :: "jsarray \<Rightarrow> jsarray \<Rightarrow> jsval list \<Rightarrow> jsarray \<Rightarrow> nat \<Rightarrow> jsval" where
  "joined source target keys sourceColumn t =
     (if js_at target t \<in> set keys \<and> indexOf target (js_at target t) = Some t
      then (case indexOf source (js_at target t) of
              None \<Rightarrow> Undefined
            | Some s \<Rightarrow> js_at sourceColumn s)
      else Undefined)"

text \<open>The records of the spec's concrete case, and two Frames with repeated keys.\<close>

definition left_records :: "RowRecord list" where
  "left_records = [[(''k'', Str ''x'')], [(''k'', Str ''y'')]]"

definition right_records :: "RowRecord list" where
  "right_records = [[(''k'', Str ''y''), (''p'', Num (Fin 10))], [(''k'', Str ''z''), (''p'', Num (Fin 20))]]"

definition left_dup :: DataFrame where
  "left_dup = \<lparr>columns = [(''k'', Some (TextSeries [Some (Str ''y''), Some (Str ''x''), Some (Str ''y'')]))],
                index = [0, 1, 2]\<rparr>"

definition right_dup :: DataFrame where
  "right_dup = \<lparr>columns = [(''k'', Some (TextSeries [Some (Str ''y''), Some (Str ''y''), Some (Str ''z'')])),
                            (''p'', Some (Series [Some (Num (Fin 10)), Some (Num (Fin 20)), Some (Num (Fin 30))]))],
                 index = [1, 0, 2]\<rparr>"

text \<open>
  The visible values of a named column (empty when the column cannot be read); a plain
  Frame is one in the natural view whose columns have no holes, so that its visible values
  are its stored arrays; and a Frame all of whose columns are of the class \<^verbatim>\<open>Series\<close>.
\<close>

definition visible_of :: "DataFrame \<Rightarrow> string \<Rightarrow> jsarray" where
  "visible_of F name = (case values_df F name of Inl e \<Rightarrow> [] | Inr vs \<Rightarrow> vs)"

definition plain :: "DataFrame \<Rightarrow> bool" where
  "plain F =
     (natural F (length (index F)) \<and>
      list_all (\<lambda>kc. case snd kc of None \<Rightarrow> False | Some c \<Rightarrow> list_all (\<lambda>e. e \<noteq> None) (values_of c))
        (columns F))"

definition all_Series :: "DataFrame \<Rightarrow> bool" where
  "all_Series F = list_all (\<lambda>kc. case snd kc of Some (Series a) \<Rightarrow> True | _ \<Rightarrow> False) (columns F)"

text \<open>
  Two Frames of three rows sliced to their first two rows, and a Frame with a number column
  and a text column.
\<close>

definition sliced_x :: DataFrame where
  "sliced_x = \<lparr>columns = [(''x'', Some (Series [Some (Num (Fin 1)), Some (Num (Fin 2)), Some (Num (Fin 3))]))],
                index = [0, 1]\<rparr>"

definition sliced_y :: DataFrame where
  "sliced_y = \<lparr>columns = [(''y'', Some (Series [Some (Num (Fin 1)), Some (Num (Fin 2)), Some (Num (Fin 1))]))],
                index = [0, 1]\<rparr>"

definition mixed_ns :: DataFrame where
  "mixed_ns = \<lparr>columns = [(''n'', Some (Series [Some (Num (Fin 1)), Some (Num (Fin 2))])),
                           (''s'', Some (TextSeries [Some (Str ''a''), Some (Str ''b'')]))],
                index = [0, 1]\<rparr>"

text \<open>The same two columns in the natural view.\<close>

definition plain_x :: DataFrame where
  "plain_x = \<lparr>columns = [(''x'', Some (Series [Some (Num (Fin 1)), Some (Num (Fin 2)), Some (Num (Fin 3))]))],
               index = [0, 1, 2]\<rparr>"

definition plain_y :: DataFrame where
  "plain_y = \<lparr>columns = [(''y'', Some (Series [Some (Num (Fin 1)), Some (Num (Fin 2)), Some (Num (Fin 1))]))],
               index = [0, 1, 2]\<rparr>"

section \<open>Basic facts about the building blocks\<close>

lemma ebind_Inr_iff: "ebind m f = Inr y \<longleftrightarrow> (\<exists>x. m = Inr x \<and> f x = Inr y)"
  by (cases m) (auto simp: ebind_def)

lemma map_of_obj_set: "map_of (obj_set kvs k v) = (map_of kvs)(k \<mapsto> v)"
  by (induction kvs k v rule: obj_set.induct) (auto simp: fun_eq_iff)

lemma keys_obj_set:
  "map fst (obj_set kvs k v) = (if k \<in> set (map fst kvs) then map fst kvs else map fst kvs @ [k])"
  by (induction kvs k v rule: obj_set.induct) auto

lemma obj_set_fresh: "k \<notin> set (map fst kvs) \<Longrightarrow> obj_set kvs k v = kvs @ [(k, v)]"
  by (induction kvs k v rule: obj_set.induct) auto

lemma map_of_singletons:
  "map_of (foldl assign_one acc (map (\<lambda>x. [(x, f x)]) ns)) x =
     (if x \<in> set ns then Some (f x) else map_of acc x)"
  by (induction ns arbitrary: acc) (auto simp: assign_one_def map_of_obj_set)

lemma include_cols_returns:
  "include_cols F ns =
     Inr \<lparr>columns = Object_assign [] (map (\<lambda>x. [(x, column F x)]) ns), index = index F\<rparr>"
  by (simp add: include_cols_def new_DataFrame_def)

lemma column_unknown: "x \<notin> set (names F) \<Longrightarrow> column F x = None"
proof -
  assume "x \<notin> set (names F)"
  then have "map_of (columns F) x = None"
    by (simp add: map_of_eq_None_iff names_def Object_keys_def)
  then show ?thesis by (simp add: column_def)
qed

section \<open>Unknown column names under include and exclude\<close>




section \<open>The row-index of a join\<close>

lemma join_sliced_reversed:
  "join sliced_n reversed_o =
     Inr \<lparr>columns = [(''n'', Some (Series [Some (Num (Fin 1)), Some (Num (Fin 3))])),
                     (''o'', Some (Series [Some (Num (Fin 4)), Some (Num (Fin 5))]))],
          index = [0, 1]\<rparr>"
  by (simp add: join_def sliced_n_def reversed_o_def new_DataFrame_def Object_assign_def
      assign_one_def upt_rec)

text \<open>
  C10: \<^verbatim>\<open>join\<close> passes no index to the constructor. Whenever it returns, the result's columns
  are the receiver's merged with the other Frame's, and its row-index counts the storage
  positions of the result's first column (it is empty when there is no column); it returns
  unless the first merged slot is undefined; and the two Frames' own row-indexes have no
  influence on the result.
\<close>

theorem join_default_index:
  "(\<forall>R. join F G = Inr R \<longrightarrow>
        columns R = Object_assign [] [columns F, columns G] \<and>
        (columns R = [] \<longrightarrow> index R = []) \<and>
        (\<forall>n c rest. columns R = (n, Some c) # rest \<longrightarrow> index R = [0..<length (values_of c)])) \<and>
   ((\<forall>n rest. Object_assign [] [columns F, columns G] \<noteq> (n, None) # rest) \<longrightarrow>
        (\<exists>R. join F G = Inr R)) \<and>
   join (F\<lparr>index := i\<rparr>) (G\<lparr>index := j\<rparr>) = join F G"
  by (auto simp: join_def new_DataFrame_def split: list.splits option.splits)

theorem join_default_index_witness:
  "(\<exists>R. join sliced_n reversed_o = Inr R \<and> index R = [0, 1] \<and> length_df R = 2) \<and>
   join (sliced_n\<lparr>index := [0, 1]\<rparr>) (reversed_o\<lparr>index := []\<rparr>) = join sliced_n reversed_o"
  using join_default_index [of sliced_n reversed_o "[0, 1]" "[]"] join_sliced_reversed
  by (simp add: length_df_def)

section \<open>Elementwise transforms of one column\<close>

lemma js_at_js_put: "js_at (js_put a i v) k = (if k = i then v else js_at a k)"
  by (auto simp: js_at_def js_put_def nth_append nth_list_update split: option.splits)

lemma length_js_put: "length (js_put a i v) = max (length a) (Suc i)"
  by (auto simp: js_put_def)

lemma js_at_defined_in_range: "js_at a i \<noteq> Undefined \<Longrightarrow> i < length a"
  by (auto simp: js_at_def split: if_splits)

lemma js_at_new_Array: "js_at (new_Array n) k = Undefined"
  by (simp add: js_at_def new_Array_def)

lemma assign_one_distinct:
  "distinct (map fst (acc @ cols)) \<Longrightarrow> assign_one acc cols = acc @ cols"
  unfolding assign_one_def
proof (induction cols arbitrary: acc)
  case Nil
  then show ?case by simp
next
  case (Cons kv cols)
  have "obj_set acc (fst kv) (snd kv) = acc @ [kv]"
    using Cons.prems by (simp add: obj_set_fresh)
  moreover have "distinct (map fst ((acc @ [kv]) @ cols))"
    using Cons.prems by simp
  ultimately show ?case using Cons.IH [of "acc @ [kv]"] by simp
qed

lemma assign_copy: "distinct (map fst cols) \<Longrightarrow> Object_assign [] [cols] = cols"
  using assign_one_distinct [of "[]" cols] by (simp add: Object_assign_def)

lemma generate_fold_length:
  "length vs = length current \<Longrightarrow>
   length (foldl (\<lambda>vs i. if js_at current i \<noteq> Undefined then js_put vs i (cb (js_at current i)) else vs)
             vs idx) = length current"
proof (induction idx arbitrary: vs)
  case Nil
  then show ?case by simp
next
  case (Cons i idx)
  show ?case
  proof (cases "js_at current i \<noteq> Undefined")
    case True
    then have "i < length current" by (rule js_at_defined_in_range)
    then have "length (js_put vs i (cb (js_at current i))) = length current"
      using Cons.prems by (simp add: length_js_put)
    then show ?thesis using True Cons.IH by simp
  next
    case False
    then show ?thesis using Cons by simp
  qed
qed

lemma generate_fold_at:
  "js_at (foldl (\<lambda>vs i. if js_at current i \<noteq> Undefined then js_put vs i (cb (js_at current i)) else vs)
             vs idx) k =
     (if k \<in> set idx \<and> js_at current k \<noteq> Undefined then cb (js_at current k) else js_at vs k)"
  by (induction idx arbitrary: vs) (auto simp: js_at_js_put)

lemma values_df_eq:
  "column F c = Some col \<Longrightarrow> values_df F c = Inr (dense (map (\<lambda>i. js_at (values_of col) i) (index F)))"
  by (simp add: values_df_def values_in_def ebind_def)

text \<open>
  What C9 says holds of \<^verbatim>\<open>derive\<close> in part_000, under any row-index: on a Frame with
  distinct column names and a column \<open>c\<close>, the result has the same row-index and names, every
  other column is the same, the new column is a Series of the same length, and its visible
  values are the visible values of \<open>c\<close> transformed one by one, absent staying absent.
\<close>

lemma derive_transforms_view:
  assumes "column F c = Some col" and "distinct (names F)"
  shows "\<exists>R new. derive F c cb = Inr R \<and> index R = index F \<and> names R = names F \<and>
           (\<forall>n. n \<noteq> c \<longrightarrow> column R n = column F n) \<and>
           column R c = Some (Series new) \<and> length new = length (values_of col) \<and>
           values_df F c = Inr (dense (map (\<lambda>i. js_at (values_of col) i) (index F))) \<and>
           values_df R c = Inr (dense (map (\<lambda>i. lifted cb (js_at (values_of col) i)) (index F)))"
proof -
  define new where "new = foldl (\<lambda>vs i. if js_at (values_of col) i \<noteq> Undefined
        then js_put vs i (cb (js_at (values_of col) i)) else vs) (new_Array (length (values_of col))) (index F)"
  define R where "R = \<lparr>columns = obj_set (columns F) c (Some (Series new)), index = index F\<rparr>"
  have d: "distinct (map fst (columns F))"
    using assms(2) by (simp add: names_def Object_keys_def)
  have gen: "generate F c cb = Inr (Series new)"
    using assms(1) by (simp add: generate_def values_in_def ebind_def new_def)
  have der: "derive F c cb = Inr R"
    using gen d by (simp add: derive_def ebind_def replace_def new_DataFrame_def R_def assign_copy)
  have len: "length new = length (values_of col)"
    unfolding new_def by (rule generate_fold_length) (simp add: new_Array_def)
  have at: "\<And>k. k \<in> set (index F) \<Longrightarrow> js_at new k = lifted cb (js_at (values_of col) k)"
    unfolding new_def by (simp add: generate_fold_at js_at_new_Array lifted_def)
  have cin: "c \<in> set (map fst (columns F))"
    using assms(1) by (auto simp: column_def split: option.splits dest: map_of_SomeD intro: rev_image_eqI)
  have nm: "names R = names F"
    using cin by (simp add: R_def names_def Object_keys_def keys_obj_set)
  have other: "\<forall>n. n \<noteq> c \<longrightarrow> column R n = column F n"
    by (simp add: R_def column_def map_of_obj_set)
  have colc: "column R c = Some (Series new)"
    by (simp add: R_def column_def map_of_obj_set)
  have vR: "values_df R c = Inr (dense (map (\<lambda>i. lifted cb (js_at (values_of col) i)) (index F)))"
    using colc at by (simp add: values_df_eq R_def dense_def)
  have iR: "index R = index F" by (simp add: R_def)
  show ?thesis
    using der iR nm other colc len values_df_eq [OF assms(1)] vR by blast
qed

text \<open>
  C9 fails in src/src/dataframe.ts: \<^verbatim>\<open>generate\<close> lists the results in the order of the
  row-index and \<^verbatim>\<open>replace\<close> keeps the row-index, so the results are read back through the
  row-index a second time. On the column \<open>n = [1, 3]\<close> seen in the order \<open>[3, 1]\<close>,
  \<^verbatim>\<open>add("n", 1)\<close> shows \<open>[2, 4]\<close> where C9 says \<open>[4, 2]\<close>; on the same column sliced to its
  second row it shows an absent value where C9 says \<open>4\<close>. The revision of part_000 shows
  \<open>[4, 2]\<close> and \<open>[4]\<close>.
\<close>

theorem add_ts_reads_results_through_index_twice:
  "values_df reversed_n ''n'' = Inr (dense [Num (Fin 3), Num (Fin 1)]) \<and>
   ebind (add_ts reversed_n ''n'' (Fin 1)) (\<lambda>R. values_df R ''n'')
     = Inr (dense [Num (Fin 2), Num (Fin 4)]) \<and>
   ebind (add_col reversed_n ''n'' (Fin 1)) (\<lambda>R. values_df R ''n'')
     = Inr (dense [Num (Fin 4), Num (Fin 2)]) \<and>
   values_df sliced_n ''n'' = Inr (dense [Num (Fin 3)]) \<and>
   ebind (add_ts sliced_n ''n'' (Fin 1)) (\<lambda>R. values_df R ''n'') = Inr (dense [Undefined]) \<and>
   ebind (add_col sliced_n ''n'' (Fin 1)) (\<lambda>R. values_df R ''n'') = Inr (dense [Num (Fin 4)])"
  by (simp add: reversed_n_def sliced_n_def values_df_def values_in_def column_def ebind_def
      add_ts_def derive_ts_def generate_ts_def add_col_def derive_def generate_def replace_def
      new_DataFrame_def Object_assign_def assign_one_def dense_def js_at_def js_put_def
      new_Array_def add_cb_def)

section \<open>Operations that write to the receiver's row-index\<close>

lemma reverse_obj_keeps_receiver:
  "index_at F < length s \<Longrightarrow> view (snd (reverse_obj F s)) F = view s F"
  by (simp add: reverse_obj_def view_def nth_append)

lemma reverse_obj_result:
  "view (snd (reverse_obj F s)) (fst (reverse_obj F s)) = \<lparr>columns = columns_of F, index = rev (s ! index_at F)\<rparr>"
  by (simp add: reverse_obj_def view_def)

text \<open>
  C2 fails in src/src/dataframe.ts: after \<^verbatim>\<open>F.reverse\<close> the receiver's own row-index, and
  with it \<^verbatim>\<open>F.records\<close>, is reversed, and the result shares the receiver's index array; after
  \<^verbatim>\<open>F.shuffle\<close> the receiver's row-index is the shuffled one. The \<^verbatim>\<open>reverse\<close> of part_000
  copies the index first and leaves the receiver as it was.
\<close>

theorem reverse_ts_writes_receiver_index:
  "index (view [[0, 1]] object_n) = [0, 1] \<and>
   records (view [[0, 1]] object_n) = Inr [[(''n'', Num (Fin 1))], [(''n'', Num (Fin 3))]] \<and>
   reverse_ts object_n [[0, 1]] = (object_n, [[1, 0]]) \<and>
   index (view (snd (reverse_ts object_n [[0, 1]])) object_n) = [1, 0] \<and>
   records (view (snd (reverse_ts object_n [[0, 1]])) object_n)
     = Inr [[(''n'', Num (Fin 3))], [(''n'', Num (Fin 1))]] \<and>
   index (view (snd (shuffle_ts arrange object_n [[0, 1]])) object_n) = arrange [0, 1] \<and>
   index_at (fst (shuffle_ts arrange object_n [[0, 1]])) = index_at object_n \<and>
   index (view (snd (reverse_obj object_n [[0, 1]])) object_n) = [0, 1] \<and>
   index (view (snd (reverse_obj object_n [[0, 1]])) (fst (reverse_obj object_n [[0, 1]]))) = [1, 0]"
  by (simp add: object_n_def view_def reverse_ts_def shuffle_ts_def reverse_obj_def records_def
      record_at_def names_def Object_keys_def column_def values_in_def ebind_def
      Object_assign_def assign_one_def js_at_def)

section \<open>Amending a Frame with a computed column\<close>


lemma emap_all_Inr:
  "(\<forall>x \<in> set xs. f x = Inr (g x)) \<Longrightarrow> emap f xs = Inr (map g xs)"
  by (induction xs) (simp_all add: ebind_def)



lemma values_of_series: "values_of (series a) = a"
  by (simp add: series_def of_type_def split: jstype.splits)

lemma values_of_series_ts: "values_of (series_ts a) = a"
  by (simp add: series_ts_def of_type_def split: jstype.splits)







lemma amend_sliced_n:
  "length_df sliced_n = 1 \<and>
   amend sliced_n ''neg'' negate_n =
     Inr \<lparr>columns = [(''n'', Some (Series [Some (Num (Fin 1)), Some (Num (Fin 3))])),
                     (''neg'', Some (Series [None, Some (Num (Fin (- 3)))]))],
          index = [1]\<rparr> \<and>
   amend_ts sliced_n ''neg'' negate_n =
     Inr \<lparr>columns = [(''n'', Some (Series [Some (Num (Fin 1)), Some (Num (Fin 3))])),
                     (''neg'', Some (Series [Some (Num (Fin (- 3)))]))],
          index = [0, 1]\<rparr>"
  by (simp add: sliced_n_def length_df_def amend_def amend_ts_def record_at_def names_def
      Object_keys_def column_def values_in_def ebind_def Object_assign_def assign_one_def
      js_at_def js_put_def new_Array_def negate_n_def prop_of_def series_def series_ts_def
      of_type_def new_DataFrame_def dense_def upt_rec)




section \<open>Validity of the row-index\<close>

lemma index_valid_iff:
  "index_valid F L \<longleftrightarrow>
     (\<forall>kc \<in> set (columns F). \<exists>c. snd kc = Some c \<and> length (values_of c) = L) \<and>
     (\<forall>i \<in> set (index F). i < L)"
  by (auto simp: index_valid_def slot_ok_def list_all_iff split: option.splits)

lemma valid_reindex:
  assumes "index_valid F L" and "set idx \<subseteq> set (index F)"
  shows "\<exists>R. reindex F idx = Inr R \<and> index_valid R L \<and> columns R = columns F \<and> index R = idx"
  using assms by (auto simp: reindex_def new_DataFrame_def index_valid_iff)

lemma valid_column:
  assumes "index_valid F L" and "x \<in> set (names F)"
  shows "\<exists>c. column F x = Some c \<and> length (values_of c) = L"
proof -
  from assms(2) obtain v where "map_of (columns F) x = Some v"
    by (auto simp: names_def Object_keys_def) (metis domD dom_map_of_conv_image_fst fst_conv image_eqI)
  moreover then have "(x, v) \<in> set (columns F)" by (rule map_of_SomeD)
  ultimately show ?thesis using assms(1) by (fastforce simp: index_valid_iff column_def)
qed

lemma valid_record_at:
  assumes "index_valid F L"
  shows "\<exists>r. record_at F i = Inr r"
proof -
  have "\<forall>x \<in> set (names F). ebind (values_in (column F x)) (\<lambda>vs. Inr [(x, js_at vs i)])
        = Inr [(x, js_at (values_of (the (column F x))) i)]"
    using valid_column [OF assms] by (fastforce simp: values_in_def ebind_def)
  then have "emap (\<lambda>x. ebind (values_in (column F x)) (\<lambda>vs. Inr [(x, js_at vs i)])) (names F)
        = Inr (map (\<lambda>x. [(x, js_at (values_of (the (column F x))) i)]) (names F))"
    by (rule emap_all_Inr)
  then show ?thesis unfolding record_at_def by (simp add: ebind_def)
qed

lemma valid_select:
  assumes "index_valid F L"
  shows "\<exists>R. select F cb = Inr R \<and> index_valid R L"
proof -
  define g where "g = (\<lambda>i. (i, truthy (cb (projr (record_at F i)))))"
  have "\<forall>i \<in> set (index F). ebind (record_at F i) (\<lambda>r. Inr (i, truthy (cb r))) = Inr (g i)"
  proof
    fix i
    obtain r where "record_at F i = Inr r" using valid_record_at [OF assms] by blast
    then show "ebind (record_at F i) (\<lambda>r. Inr (i, truthy (cb r))) = Inr (g i)"
      by (simp add: ebind_def g_def)
  qed
  then have e: "emap (\<lambda>i. ebind (record_at F i) (\<lambda>r. Inr (i, truthy (cb r)))) (index F) = Inr (map g (index F))"
    by (rule emap_all_Inr)
  have "set (map fst (filter snd (map g (index F)))) \<subseteq> set (index F)"
    by (auto simp: g_def)
  from valid_reindex [OF assms this] show ?thesis
    unfolding select_def e by (auto simp: ebind_def)
qed


lemma mset_insert_by: "mset (insert_by cmp x ys) = add_mset x (mset ys)"
  by (induction ys) auto

lemma mset_js_sort_aux: "mset (foldl (\<lambda>acc x. insert_by cmp x acc) acc xs) = mset acc + mset xs"
  by (induction xs arbitrary: acc) (auto simp: mset_insert_by)

lemma mset_js_sort: "mset (js_sort cmp xs) = mset xs"
  by (simp add: js_sort_def mset_js_sort_aux)

lemma sorted_index_perm:
  "mset (map fst (js_sort cmp (map (\<lambda>i. (i, f i)) idx))) = mset idx"
proof -
  have "mset (map fst (js_sort cmp (map (\<lambda>i. (i, f i)) idx))) = image_mset fst (mset (js_sort cmp (map (\<lambda>i. (i, f i)) idx)))"
    by simp
  also have "\<dots> = image_mset fst (mset (map (\<lambda>i. (i, f i)) idx))"
    by (simp only: mset_js_sort)
  also have "\<dots> = mset idx"
    by (simp add: image_mset.compositionality comp_def)
  finally show ?thesis .
qed

lemma valid_sort:
  assumes "index_valid F L"
  shows "(\<forall>R. sort_rows F c asc = Inr R \<longrightarrow> index_valid R L) \<and>
         (\<forall>R. sort_ts F c = Inr R \<longrightarrow> index_valid R L) \<and>
         (c \<in> set (names F) \<longrightarrow> (\<exists>R. sort_rows F c asc = Inr R) \<and> (\<exists>R. sort_ts F c = Inr R))"
proof -
  have s: "set (map fst (js_sort (compare_rows a) (map (\<lambda>i. (i, js_at vs i)) (index F)))) \<subseteq> set (index F)"
    for vs a
    using mset_eq_setD [OF sorted_index_perm [of "compare_rows a" "js_at vs" "index F"]] by simp
  have r: "reindex F (map fst (js_sort (compare_rows a) (map (\<lambda>i. (i, js_at vs i)) (index F)))) = Inr R
      \<Longrightarrow> index_valid R L" for vs a R
    using valid_reindex [OF assms s [of a vs]] by auto
  have a: "\<forall>R. sort_rows F c asc = Inr R \<longrightarrow> index_valid R L"
    unfolding sort_rows_def ebind_Inr_iff using r by blast
  have b: "\<forall>R. sort_ts F c = Inr R \<longrightarrow> index_valid R L"
    unfolding sort_ts_def ebind_Inr_iff reindex_def [symmetric] using r by blast
  have c: "c \<in> set (names F) \<longrightarrow> (\<exists>R. sort_rows F c asc = Inr R) \<and> (\<exists>R. sort_ts F c = Inr R)"
  proof
    assume "c \<in> set (names F)"
    then obtain col where "column F c = Some col" using valid_column [OF assms] by blast
    then show "(\<exists>R. sort_rows F c asc = Inr R) \<and> (\<exists>R. sort_ts F c = Inr R)"
      by (simp add: sort_rows_def sort_ts_def values_in_def ebind_def reindex_def new_DataFrame_def)
  qed
  from a b c show ?thesis by blast
qed

lemma set_js_slice: "set (js_slice xs a b) \<subseteq> set xs"
  by (auto simp: js_slice_def Let_def dest: in_set_takeD in_set_dropD)

lemma valid_views:
  assumes "index_valid F L"
  shows "(\<exists>R. reverse F = Inr R \<and> index_valid R L) \<and>
         (\<exists>R. slice F a b = Inr R \<and> index_valid R L) \<and>
         (set (sh (index F)) \<subseteq> set (index F) \<longrightarrow> (\<exists>R. shuffle sh F = Inr R \<and> index_valid R L))"
proof -
  have 1: "\<exists>R. reverse F = Inr R \<and> index_valid R L"
    unfolding reverse_def using valid_reindex [OF assms, of "rev (index F)"] by auto
  have 2: "\<exists>R. slice F a b = Inr R \<and> index_valid R L"
    unfolding slice_def using valid_reindex [OF assms set_js_slice, of a b] by auto
  have 3: "set (sh (index F)) \<subseteq> set (index F) \<longrightarrow> (\<exists>R. shuffle sh F = Inr R \<and> index_valid R L)"
    unfolding shuffle_def using valid_reindex [OF assms, of "sh (index F)"] by auto
  from 1 2 3 show ?thesis by blast
qed


lemma slot_okI: "snd kc = Some c \<Longrightarrow> length (values_of c) = L \<Longrightarrow> slot_ok L kc"
  by (simp add: slot_ok_def)

lemma set_obj_set: "set (obj_set kvs k v) \<subseteq> insert (k, v) (set kvs)"
  by (induction kvs k v rule: obj_set.induct) auto

lemma set_assign_one: "set (assign_one acc src) \<subseteq> set acc \<union> set src"
  unfolding assign_one_def
proof (induction src arbitrary: acc)
  case Nil
  then show ?case by simp
next
  case (Cons kv src)
  show ?case using Cons.IH [of "obj_set acc (fst kv) (snd kv)"] set_obj_set [of acc "fst kv" "snd kv"]
    by auto
qed

lemma set_Object_assign: "set (Object_assign acc srcs) \<subseteq> set acc \<union> \<Union> (set ` set srcs)"
  unfolding Object_assign_def
proof (induction srcs arbitrary: acc)
  case Nil
  then show ?case by simp
next
  case (Cons src srcs)
  show ?case using Cons.IH [of "assign_one acc src"] set_assign_one [of acc src] by auto
qed

lemma new_DataFrame_default_valid:
  assumes "\<forall>kc \<in> set cols. slot_ok L kc"
  shows "\<exists>R. new_DataFrame cols None = Inr R \<and> index_valid R L \<and> columns R = cols"
proof (cases cols)
  case Nil
  then show ?thesis by (simp add: new_DataFrame_def index_valid_def)
next
  case (Cons kc rest)
  then have "slot_ok L kc" using assms by simp
  then obtain c where c: "snd kc = Some c" "length (values_of c) = L"
    by (auto simp: slot_ok_def split: option.splits)
  have "new_DataFrame cols None = Inr \<lparr>columns = cols, index = [0..<L]\<rparr>"
    using Cons c by (cases kc) (simp add: new_DataFrame_def)
  moreover have "index_valid \<lparr>columns = cols, index = [0..<L]\<rparr> L"
    using assms by (simp add: index_valid_def list_all_iff)
  ultimately show ?thesis by simp
qed

lemma valid_slots: "index_valid F L \<Longrightarrow> \<forall>kc \<in> set (columns F). slot_ok L kc"
  by (simp add: index_valid_def list_all_iff)

lemma valid_join:
  assumes "index_valid F L" and "index_valid G L"
  shows "\<exists>R. join F G = Inr R \<and> index_valid R L"
proof -
  have "\<forall>kc \<in> set (Object_assign [] [columns F, columns G]). slot_ok L kc"
    using set_Object_assign [of "[]" "[columns F, columns G]"] valid_slots [OF assms(1)] valid_slots [OF assms(2)]
    by auto
  from new_DataFrame_default_valid [OF this] show ?thesis by (auto simp: join_def)
qed

lemma valid_include:
  assumes "index_valid F L" and "set ns \<subseteq> set (names F)"
  shows "\<exists>R. include_cols F ns = Inr R \<and> index_valid R L"
proof -
  have "\<forall>kc \<in> set (Object_assign [] (map (\<lambda>x. [(x, column F x)]) ns)). slot_ok L kc"
  proof
    fix kc assume "kc \<in> set (Object_assign [] (map (\<lambda>x. [(x, column F x)]) ns))"
    then obtain x where x: "x \<in> set ns" "kc = (x, column F x)"
      using set_Object_assign [of "[]" "map (\<lambda>x. [(x, column F x)]) ns"] by auto
    moreover from x assms(2) obtain c where "column F x = Some c" "length (values_of c) = L"
      using valid_column [OF assms(1), of x] by blast
    ultimately show "slot_ok L kc" by (simp add: slot_ok_def)
  qed
  then show ?thesis
    using assms(1) by (simp add: include_cols_returns index_valid_def list_all_iff)
qed

lemma valid_exclude:
  assumes "index_valid F L"
  shows "\<exists>R. exclude_cols F ns = Inr R \<and> index_valid R L"
  unfolding exclude_cols_def by (rule valid_include [OF assms]) auto

lemma set_rename_fold:
  "snd ` set (foldl (\<lambda>cols fc. obj_set cols (g fc) (snd fc)) acc src) \<subseteq> snd ` set acc \<union> snd ` set src"
proof (induction src arbitrary: acc)
  case Nil
  then show ?case by simp
next
  case (Cons fc src)
  have "snd ` set (obj_set acc (g fc) (snd fc)) \<subseteq> insert (snd fc) (snd ` set acc)"
    using set_obj_set [of acc "g fc" "snd fc"] by force
  moreover note Cons.IH [of "obj_set acc (g fc) (snd fc)"]
  ultimately have "snd ` set (foldl (\<lambda>cols fc. obj_set cols (g fc) (snd fc)) (obj_set acc (g fc) (snd fc)) src)
      \<subseteq> insert (snd fc) (snd ` set acc) \<union> snd ` set src"
    by blast
  then show ?case by simp
qed

lemma valid_rename:
  assumes "index_valid F L"
  shows "\<exists>R. rename F m = Inr R \<and> index_valid R L"
proof -
  let ?cols = "foldl (\<lambda>cols fc. obj_set cols (case map_of m (fst fc) of None \<Rightarrow> fst fc | Some t \<Rightarrow> t) (snd fc)) [] (columns F)"
  have "snd ` set ?cols \<subseteq> snd ` set (columns F)"
    using set_rename_fold [of "\<lambda>fc. case map_of m (fst fc) of None \<Rightarrow> fst fc | Some t \<Rightarrow> t" "[]" "columns F"]
    by simp
  then have "\<forall>kc \<in> set ?cols. slot_ok L kc"
    using valid_slots [OF assms] by (fastforce simp: slot_ok_def)
  then show ?thesis
    using assms by (simp add: rename_def new_DataFrame_def index_valid_def list_all_iff)
qed

lemma valid_derive:
  assumes "index_valid F L"
  shows "(\<forall>R. derive F c cb = Inr R \<longrightarrow> index_valid R L) \<and>
         (c \<in> set (names F) \<longrightarrow> (\<exists>R. derive F c cb = Inr R))"
proof -
  have a: "index_valid R L" if "derive F c cb = Inr R" for R
  proof -
    from that obtain col where col: "column F c = Some col"
      by (auto simp: derive_def generate_def ebind_Inr_iff values_in_def split: option.splits)
    define new where "new = foldl (\<lambda>vs i. if js_at (values_of col) i \<noteq> Undefined
        then js_put vs i (cb (js_at (values_of col) i)) else vs) (new_Array (length (values_of col))) (index F)"
    have "(c, Some col) \<in> set (columns F)"
      using col by (auto simp: column_def split: option.splits dest: map_of_SomeD)
    then have "length (values_of col) = L"
      using valid_slots [OF assms] by (auto simp: slot_ok_def)
    then have len: "length new = L"
      using generate_fold_length [of "new_Array (length (values_of col))" "values_of col" cb "index F"]
      by (simp add: new_def new_Array_def)
    have R: "R = \<lparr>columns = obj_set (Object_assign [] [columns F]) c (Some (Series new)), index = index F\<rparr>"
      using that col by (simp add: derive_def generate_def values_in_def ebind_def replace_def
          new_DataFrame_def new_def)
    have "slot_ok L (c, Some (Series new))"
      using len by (simp add: slot_ok_def)
    then have "\<forall>kc \<in> set (obj_set (Object_assign [] [columns F]) c (Some (Series new))). slot_ok L kc"
      using set_obj_set [of "Object_assign [] [columns F]" c "Some (Series new)"]
        set_Object_assign [of "[]" "[columns F]"] valid_slots [OF assms]
      by auto
    then show ?thesis using assms by (simp add: R index_valid_def list_all_iff)
  qed
  have b: "c \<in> set (names F) \<longrightarrow> (\<exists>R. derive F c cb = Inr R)"
  proof
    assume "c \<in> set (names F)"
    then obtain col where "column F c = Some col" using valid_column [OF assms] by blast
    then show "\<exists>R. derive F c cb = Inr R"
      by (simp add: derive_def generate_def values_in_def ebind_def replace_def new_DataFrame_def)
  qed
  from a b show ?thesis by blast
qed

lemma valid_outlier:
  assumes "index_valid F L"
  shows "\<exists>R. outlier avg std factor F = Inr R \<and> index_valid R L"
proof -
  have "\<forall>entry \<in> set (columns F). \<exists>sk. skips avg std factor F entry = Inr sk"
  proof
    fix entry assume e: "entry \<in> set (columns F)"
    then obtain c where c: "snd entry = Some c"
      using valid_slots [OF assms] by (auto simp: slot_ok_def split: option.splits)
    have "fst entry \<in> set (names F)"
      using e by (auto simp: names_def Object_keys_def)
    then obtain col where "column F (fst entry) = Some col" using valid_column [OF assms] by blast
    then show "\<exists>sk. skips avg std factor F entry = Inr sk"
      using c by (simp add: skips_def values_df_eq ebind_def)
  qed
  then have "\<forall>entry \<in> set (columns F). skips avg std factor F entry = Inr (projr (skips avg std factor F entry))"
    by fastforce
  then have "emap (skips avg std factor F) (columns F) = Inr (map (\<lambda>e. projr (skips avg std factor F e)) (columns F))"
    by (rule emap_all_Inr)
  then show ?thesis
    unfolding outlier_def using valid_reindex [OF assms, of "filter (\<lambda>i. i \<notin> set (concat (map (\<lambda>e. projr (skips avg std factor F e)) (columns F)))) (index F)"]
    by (auto simp: ebind_def)
qed


lemma values_of_declared: "values_of (declared t vs) = vs"
  by (simp add: declared_def split: ColumnTypeName.splits)

lemma valid_fromDef: "\<exists>F. fromDef header rs = Inr F \<and> index_valid F (length rs)"
proof -
  let ?cols = "Object_assign []
          (map (\<lambda>nt. [(fst nt, Some (declared (snd nt) (dense (map (\<lambda>r. prop_of r (fst nt)) rs))))]) header)"
  have "\<forall>kc \<in> set ?cols. slot_ok (length rs) kc"
  proof
    fix kc assume "kc \<in> set ?cols"
    then obtain nt where "kc = (fst nt, Some (declared (snd nt) (dense (map (\<lambda>r. prop_of r (fst nt)) rs))))"
      using set_Object_assign [of "[]" "map (\<lambda>nt. [(fst nt, Some (declared (snd nt) (dense (map (\<lambda>r. prop_of r (fst nt)) rs))))]) header"]
      by auto
    then show "slot_ok (length rs) kc"
      by (simp add: slot_ok_def values_of_declared dense_def)
  qed
  from new_DataFrame_default_valid [OF this] show ?thesis by (auto simp: fromDef_def)
qed

lemma valid_fromRecords_ts:
  "rs \<noteq> [] \<Longrightarrow> \<exists>F. fromRecords_ts rs = Inr F \<and> index_valid F (length rs)"
proof -
  assume "rs \<noteq> []"
  then obtain r0 rest where rs: "rs = r0 # rest" by (cases rs) auto
  let ?cols = "Object_assign []
       (map (\<lambda>name. [(name, Some (series_ts (dense (map (\<lambda>r. prop_of r name) rs))))]) (Object_keys r0))"
  have "\<forall>kc \<in> set ?cols. slot_ok (length rs) kc"
  proof
    fix kc assume "kc \<in> set ?cols"
    then obtain name where "kc = (name, Some (series_ts (dense (map (\<lambda>r. prop_of r name) rs))))"
      using set_Object_assign [of "[]" "map (\<lambda>name. [(name, Some (series_ts (dense (map (\<lambda>r. prop_of r name) rs))))]) (Object_keys r0)"]
      by auto
    then show "slot_ok (length rs) kc"
      by (simp add: slot_ok_def values_of_series_ts dense_def)
  qed
  from new_DataFrame_default_valid [OF this] obtain R where
    "new_DataFrame ?cols None = Inr R" "index_valid R (length rs)" by blast
  moreover have "fromRecords_ts rs = new_DataFrame ?cols None"
    by (simp add: fromRecords_ts_def rs)
  ultimately show ?thesis by simp
qed

lemma put_cell_lengths:
  assumes "\<forall>ka \<in> set arrays. length (snd ka) = n" and "i < n"
  shows "\<forall>ka \<in> set (put_cell n i arrays kv). length (snd ka) = n"
proof (cases "map_of arrays (fst kv)")
  case None
  then show ?thesis
    using assms set_obj_set [of arrays "fst kv" "(replicate n (Some Undefined))[i := Some (snd kv)]"]
    by (auto simp: put_cell_def)
next
  case (Some a)
  then have "(fst kv, a) \<in> set arrays" by (rule map_of_SomeD)
  then have "length a = n" using assms(1) by auto
  then have "length (js_put a i (snd kv)) = n" using assms(2) by (simp add: length_js_put)
  then show ?thesis
    using Some assms(1) set_obj_set [of arrays "fst kv" "js_put a i (snd kv)"]
    by (auto simp: put_cell_def)
qed

lemma put_cells_lengths:
  assumes "\<forall>ka \<in> set arrays. length (snd ka) = n" and "i < n"
  shows "\<forall>ka \<in> set (foldl (put_cell n i) arrays r). length (snd ka) = n"
  using assms(1)
proof (induction r arbitrary: arrays)
  case Nil
  then show ?case by simp
next
  case (Cons kv r)
  show ?case using Cons.IH [OF put_cell_lengths [OF Cons.prems assms(2)]] by simp
qed

lemma transpose_fold_lengths:
  assumes "\<forall>ka \<in> set arrays. length (snd ka) = n" and "\<forall>ir \<in> set irs. fst ir < n"
  shows "\<forall>ka \<in> set (foldl (\<lambda>arrays ir. foldl (put_cell n (fst ir)) arrays (snd ir)) arrays irs).
           length (snd ka) = n"
  using assms
proof (induction irs arbitrary: arrays)
  case Nil
  then show ?case by simp
next
  case (Cons ir irs)
  have "\<forall>ka \<in> set (foldl (put_cell n (fst ir)) arrays (snd ir)). length (snd ka) = n"
    using put_cells_lengths [of arrays n "fst ir" "snd ir"] Cons.prems by simp
  from Cons.IH [OF this] Cons.prems(2) show ?case by simp
qed

lemma transpose_records_lengths:
  "\<forall>ka \<in> set (transpose_records rs). length (snd ka) = length rs"
  unfolding transpose_records_def
  by (rule transpose_fold_lengths) (auto dest: set_zip_leftD)

lemma valid_fromRecords: "\<exists>F. fromRecords rs = Inr F \<and> index_valid F (length rs)"
proof -
  let ?cols = "Object_assign [] (map (\<lambda>ka. [(fst ka, Some (series (snd ka)))]) (transpose_records rs))"
  have "\<forall>kc \<in> set ?cols. slot_ok (length rs) kc"
  proof
    fix kc assume "kc \<in> set ?cols"
    then obtain ka where "ka \<in> set (transpose_records rs)" "kc = (fst ka, Some (series (snd ka)))"
      using set_Object_assign [of "[]" "map (\<lambda>ka. [(fst ka, Some (series (snd ka)))]) (transpose_records rs)"]
      by auto
    then show "slot_ok (length rs) kc"
      using transpose_records_lengths [of rs] by (simp add: slot_ok_def values_of_series)
  qed
  from new_DataFrame_default_valid [OF this] show ?thesis by (auto simp: fromRecords_def)
qed

lemma fromRecords_two_records:
  "fromRecords two_records = Inr natural_n" "fromRecords_ts two_records = Inr natural_n"
  by (simp_all add: two_records_def natural_n_def fromRecords_def fromRecords_ts_def
      transpose_records_def put_cell_def new_DataFrame_def Object_assign_def assign_one_def
      Object_keys_def series_def series_ts_def of_type_def js_at_def js_put_def dense_def
      prop_of_def upt_rec)

lemma slice_natural_n:
  "slice natural_n 0 1 = Inr (natural_n\<lparr>index := [0]\<rparr>)" "slice natural_n 1 2 = Inr sliced_n"
  by (simp_all add: slice_def reindex_def new_DataFrame_def js_slice_def natural_n_def sliced_n_def)

text \<open>
  C1, as stated, fails. The constructor takes any index: a Frame with one column of one
  position and the row-index \<open>[5]\<close>. And \<^verbatim>\<open>amend\<close> after a slice: from the two records,
  part_000 returns columns of two and of one position, and src/src/dataframe.ts returns the
  row-index \<open>[0, 1]\<close> over a new column of one position. None of the three Frames has a
  common storage length that bounds its row-index.
\<close>

theorem index_validity_broken:
  "new_DataFrame [(''n'', Some (Series [Some (Num (Fin 1))]))] (Some [5])
     = Inr \<lparr>columns = [(''n'', Some (Series [Some (Num (Fin 1))]))], index = [5]\<rparr> \<and>
   (\<forall>L. \<not> index_valid \<lparr>columns = [(''n'', Some (Series [Some (Num (Fin 1))]))], index = [5]\<rparr> L) \<and>
   ebind (fromRecords two_records) (\<lambda>F. ebind (slice F 0 1) (\<lambda>G. amend G ''neg'' negate_n))
     = Inr \<lparr>columns = [(''n'', Some (Series [Some (Num (Fin 1)), Some (Num (Fin 3))])),
                       (''neg'', Some (Series [Some (Num (Fin (- 1)))]))],
            index = [0]\<rparr> \<and>
   (\<forall>L. \<not> index_valid \<lparr>columns = [(''n'', Some (Series [Some (Num (Fin 1)), Some (Num (Fin 3))])),
                       (''neg'', Some (Series [Some (Num (Fin (- 1)))]))],
            index = [0]\<rparr> L) \<and>
   ebind (fromRecords_ts two_records) (\<lambda>F. ebind (slice F 1 2) (\<lambda>G. amend_ts G ''neg'' negate_n))
     = Inr \<lparr>columns = [(''n'', Some (Series [Some (Num (Fin 1)), Some (Num (Fin 3))])),
                       (''neg'', Some (Series [Some (Num (Fin (- 3)))]))],
            index = [0, 1]\<rparr> \<and>
   (\<forall>L. \<not> index_valid \<lparr>columns = [(''n'', Some (Series [Some (Num (Fin 1)), Some (Num (Fin 3))])),
                       (''neg'', Some (Series [Some (Num (Fin (- 3)))]))],
            index = [0, 1]\<rparr> L)"
proof -
  have a: "amend (natural_n\<lparr>index := [0]\<rparr>) ''neg'' negate_n
     = Inr \<lparr>columns = [(''n'', Some (Series [Some (Num (Fin 1)), Some (Num (Fin 3))])),
                       (''neg'', Some (Series [Some (Num (Fin (- 1)))]))],
            index = [0]\<rparr>"
    by (simp add: natural_n_def length_df_def amend_def record_at_def names_def
        Object_keys_def column_def values_in_def ebind_def Object_assign_def assign_one_def
        js_at_def js_put_def new_Array_def negate_n_def prop_of_def series_def
        of_type_def new_DataFrame_def)
  show ?thesis
    using amend_sliced_n
    by (simp add: fromRecords_two_records slice_natural_n a ebind_def new_DataFrame_def
        index_valid_def slot_ok_def)
qed

text \<open>
  C1, amended. \<^verbatim>\<open>fromRecords\<close> (of either revision, which needs a first record in
  src/src/dataframe.ts) and \<^verbatim>\<open>fromDef\<close> return a Frame whose columns all have as many
  positions as there are records and whose row-index stays below that number; so does the
  constructor without an index on defined columns of one length. On a Frame with that
  property for the length \<open>L\<close>, \<^verbatim>\<open>select\<close>, \<^verbatim>\<open>reverse\<close>, \<^verbatim>\<open>slice\<close>, \<^verbatim>\<open>outlier\<close>, \<^verbatim>\<open>exclude\<close>,
  \<^verbatim>\<open>rename\<close>, \<^verbatim>\<open>include\<close> of known names, \<^verbatim>\<open>shuffle\<close> with rows of the current index and
  \<^verbatim>\<open>join\<close> with a Frame of the same length return a Frame with the property for \<open>L\<close>;
  \<^verbatim>\<open>sort\<close> and the elementwise transforms of part_000 (\<^verbatim>\<open>log\<close>, \<^verbatim>\<open>scale\<close>, \<^verbatim>\<open>add\<close>, all
  \<^verbatim>\<open>derive\<close> with a callback) return for a known column and every Frame they return has
  the property. Nothing is said of \<^verbatim>\<open>amend\<close> or of a constructor call with an index.
\<close>

theorem index_validity_kept:
  "(\<exists>R. fromRecords rs = Inr R \<and> index_valid R (length rs)) \<and>
   (rs \<noteq> [] \<longrightarrow> (\<exists>R. fromRecords_ts rs = Inr R \<and> index_valid R (length rs))) \<and>
   (\<exists>R. fromDef header rs = Inr R \<and> index_valid R (length rs)) \<and>
   ((\<forall>kc \<in> set cols. slot_ok L kc) \<longrightarrow> (\<exists>R. new_DataFrame cols None = Inr R \<and> index_valid R L)) \<and>
   (index_valid F L \<longrightarrow>
      (\<exists>R. select F cb = Inr R \<and> index_valid R L) \<and>
      (\<exists>R. reverse F = Inr R \<and> index_valid R L) \<and>
      (\<exists>R. slice F a b = Inr R \<and> index_valid R L) \<and>
      (set (sh (index F)) \<subseteq> set (index F) \<longrightarrow> (\<exists>R. shuffle sh F = Inr R \<and> index_valid R L)) \<and>
      (\<exists>R. outlier avg std factor F = Inr R \<and> index_valid R L) \<and>
      (\<exists>R. exclude_cols F ns = Inr R \<and> index_valid R L) \<and>
      (set ns \<subseteq> set (names F) \<longrightarrow> (\<exists>R. include_cols F ns = Inr R \<and> index_valid R L)) \<and>
      (\<exists>R. rename F m = Inr R \<and> index_valid R L) \<and>
      (index_valid G L \<longrightarrow> (\<exists>R. join F G = Inr R \<and> index_valid R L)) \<and>
      (\<forall>R. sort_rows F c asc = Inr R \<longrightarrow> index_valid R L) \<and>
      (\<forall>R. sort_ts F c = Inr R \<longrightarrow> index_valid R L) \<and>
      (\<forall>R. derive F c f = Inr R \<longrightarrow> index_valid R L) \<and>
      (c \<in> set (names F) \<longrightarrow>
         (\<exists>R. sort_rows F c asc = Inr R) \<and> (\<exists>R. sort_ts F c = Inr R) \<and> (\<exists>R. derive F c f = Inr R)))"
proof -
  have "index_valid F L \<longrightarrow>
      (\<exists>R. select F cb = Inr R \<and> index_valid R L) \<and>
      (\<exists>R. reverse F = Inr R \<and> index_valid R L) \<and>
      (\<exists>R. slice F a b = Inr R \<and> index_valid R L) \<and>
      (set (sh (index F)) \<subseteq> set (index F) \<longrightarrow> (\<exists>R. shuffle sh F = Inr R \<and> index_valid R L)) \<and>
      (\<exists>R. outlier avg std factor F = Inr R \<and> index_valid R L) \<and>
      (\<exists>R. exclude_cols F ns = Inr R \<and> index_valid R L) \<and>
      (set ns \<subseteq> set (names F) \<longrightarrow> (\<exists>R. include_cols F ns = Inr R \<and> index_valid R L)) \<and>
      (\<exists>R. rename F m = Inr R \<and> index_valid R L) \<and>
      (index_valid G L \<longrightarrow> (\<exists>R. join F G = Inr R \<and> index_valid R L)) \<and>
      (\<forall>R. sort_rows F c asc = Inr R \<longrightarrow> index_valid R L) \<and>
      (\<forall>R. sort_ts F c = Inr R \<longrightarrow> index_valid R L) \<and>
      (\<forall>R. derive F c f = Inr R \<longrightarrow> index_valid R L) \<and>
      (c \<in> set (names F) \<longrightarrow>
         (\<exists>R. sort_rows F c asc = Inr R) \<and> (\<exists>R. sort_ts F c = Inr R) \<and> (\<exists>R. derive F c f = Inr R))"
  proof
    assume v: "index_valid F L"
    note valid_select [OF v, of cb] valid_views [OF v, of a b sh] valid_outlier [OF v, of avg std factor]
      valid_exclude [OF v, of ns] valid_rename [OF v, of m] valid_sort [OF v, of c asc]
      valid_derive [OF v, of c f]
    moreover have "set ns \<subseteq> set (names F) \<longrightarrow> (\<exists>R. include_cols F ns = Inr R \<and> index_valid R L)"
      using valid_include [OF v] by blast
    moreover have "index_valid G L \<longrightarrow> (\<exists>R. join F G = Inr R \<and> index_valid R L)"
      using valid_join [OF v] by blast
    ultimately show "(\<exists>R. select F cb = Inr R \<and> index_valid R L) \<and>
      (\<exists>R. reverse F = Inr R \<and> index_valid R L) \<and>
      (\<exists>R. slice F a b = Inr R \<and> index_valid R L) \<and>
      (set (sh (index F)) \<subseteq> set (index F) \<longrightarrow> (\<exists>R. shuffle sh F = Inr R \<and> index_valid R L)) \<and>
      (\<exists>R. outlier avg std factor F = Inr R \<and> index_valid R L) \<and>
      (\<exists>R. exclude_cols F ns = Inr R \<and> index_valid R L) \<and>
      (set ns \<subseteq> set (names F) \<longrightarrow> (\<exists>R. include_cols F ns = Inr R \<and> index_valid R L)) \<and>
      (\<exists>R. rename F m = Inr R \<and> index_valid R L) \<and>
      (index_valid G L \<longrightarrow> (\<exists>R. join F G = Inr R \<and> index_valid R L)) \<and>
      (\<forall>R. sort_rows F c asc = Inr R \<longrightarrow> index_valid R L) \<and>
      (\<forall>R. sort_ts F c = Inr R \<longrightarrow> index_valid R L) \<and>
      (\<forall>R. derive F c f = Inr R \<longrightarrow> index_valid R L) \<and>
      (c \<in> set (names F) \<longrightarrow>
         (\<exists>R. sort_rows F c asc = Inr R) \<and> (\<exists>R. sort_ts F c = Inr R) \<and> (\<exists>R. derive F c f = Inr R))"
      by blast
  qed
  moreover have "(\<forall>kc \<in> set cols. slot_ok L kc) \<longrightarrow> (\<exists>R. new_DataFrame cols None = Inr R \<and> index_valid R L)"
    using new_DataFrame_default_valid [of cols L] by blast
  moreover have "rs \<noteq> [] \<longrightarrow> (\<exists>R. fromRecords_ts rs = Inr R \<and> index_valid R (length rs))"
    using valid_fromRecords_ts [of rs] by blast
  moreover note valid_fromRecords [of rs] valid_fromDef [of header rs]
  ultimately show ?thesis by blast
qed

theorem index_validity_kept_witness:
  "index_valid natural_n 2 \<and>
   (\<exists>R. fromRecords_ts two_records = Inr R \<and> index_valid R 2) \<and>
   (\<exists>R. new_DataFrame (columns natural_n) None = Inr R \<and> index_valid R 2) \<and>
   (\<exists>R. select natural_n negate_n = Inr R \<and> index_valid R 2) \<and>
   (\<exists>R. shuffle rev natural_n = Inr R \<and> index_valid R 2) \<and>
   (\<exists>R. include_cols natural_n [''n''] = Inr R \<and> index_valid R 2) \<and>
   (\<exists>R. join natural_n natural_n = Inr R \<and> index_valid R 2) \<and>
   (\<exists>R. sort_rows natural_n ''n'' False = Inr R \<and> index_valid R 2) \<and>
   (\<exists>R. add_col natural_n ''n'' (Fin 1) = Inr R \<and> index_valid R 2)"
proof -
  have v: "index_valid natural_n 2"
    by (simp add: index_valid_def slot_ok_def natural_n_def)
  have s: "\<forall>kc \<in> set (columns natural_n). slot_ok 2 kc"
    by (simp add: slot_ok_def natural_n_def)
  have n: "set [''n''] \<subseteq> set (names natural_n)" "''n'' \<in> set (names natural_n)"
    "set (rev (index natural_n)) \<subseteq> set (index natural_n)" "two_records \<noteq> []" "length two_records = 2"
    by (simp_all add: names_def Object_keys_def natural_n_def two_records_def)
  show ?thesis
    using index_validity_kept [where rs = two_records and cols = "columns natural_n" and L = 2
        and F = natural_n and cb = negate_n and sh = rev and ns = "[''n'']" and G = natural_n
        and c = "''n''" and asc = False and f = "add_cb (Fin 1)" and a = 0 and b = 0
        and avg = "\<lambda>a. Fin 0" and std = "\<lambda>a. Fin 0" and factor = "Fin 0" and m = "[]" and header = "[]"]
      v s n
    unfolding add_col_def by simp blast
qed

section \<open>Sorting\<close>

lemma sort_key_not_NaN: "numeric_or_absent v \<Longrightarrow> sort_key v \<noteq> NaN"
  by (cases v rule: numeric_or_absent.cases; cases "to_number v") (auto simp: sort_key_def or_zero_def)











section \<open>Outlier rows\<close>














section \<open>Left join on first occurrences\<close>

lemma map_of_assign_one: "map_of (assign_one t s) = map_of t ++ map_of (rev s)"
  unfolding assign_one_def
  by (induction s arbitrary: t) (auto simp: map_of_obj_set fun_eq_iff map_add_def split: option.splits)

lemma distinct_obj_set: "distinct (map fst kvs) \<Longrightarrow> distinct (map fst (obj_set kvs k v))"
  by (simp add: keys_obj_set)

lemma distinct_assign_one: "distinct (map fst t) \<Longrightarrow> distinct (map fst (assign_one t s))"
  unfolding assign_one_def by (induction s arbitrary: t) (simp_all add: distinct_obj_set)

lemma distinct_Object_assign: "distinct (map fst t) \<Longrightarrow> distinct (map fst (Object_assign t ss))"
  unfolding Object_assign_def by (induction ss arbitrary: t) (simp_all add: distinct_assign_one)

lemma map_of_rev_distinct: "distinct (map fst xs) \<Longrightarrow> map_of (rev xs) = map_of xs"
  by (rule ext) (metis map_of_inject_set distinct_rev rev_map set_rev)

text \<open>indexOf gives the first position that holds the key.\<close>

lemma indexOf_from_Some:
  "indexOf_from k a key = Some t \<longleftrightarrow>
     k \<le> t \<and> t - k < length a \<and> (\<exists>v. a ! (t - k) = Some v \<and> strict_eq v key) \<and>
     (\<forall>j < t - k. \<forall>v. a ! j = Some v \<longrightarrow> \<not> strict_eq v key)"
proof (induction a arbitrary: k)
  case Nil
  then show ?case by simp
next
  case (Cons e es)
  show ?case
  proof (cases "\<exists>v. e = Some v \<and> strict_eq v key")
    case True
    then show ?thesis by (auto simp: nth_Cons split: nat.splits)
  next
    case False
    then have "indexOf_from k (e # es) key = indexOf_from (Suc k) es key"
      by (cases e) auto
    moreover have "(Suc k \<le> t \<and> t - Suc k < length es \<and> (\<exists>v. es ! (t - Suc k) = Some v \<and> strict_eq v key) \<and>
        (\<forall>j < t - Suc k. \<forall>v. es ! j = Some v \<longrightarrow> \<not> strict_eq v key)) \<longleftrightarrow>
      (k \<le> t \<and> t - k < length (e # es) \<and> (\<exists>v. (e # es) ! (t - k) = Some v \<and> strict_eq v key) \<and>
        (\<forall>j < t - k. \<forall>v. (e # es) ! j = Some v \<longrightarrow> \<not> strict_eq v key))"
    proof (cases "t \<le> k")
      case True
      then show ?thesis using False by (auto simp: nth_Cons)
    next
      case gt: False
      then obtain d where d: "t - k = Suc d" "t - Suc k = d" by (cases "t - k") auto
      have "(\<forall>j < Suc d. \<forall>v. (e # es) ! j = Some v \<longrightarrow> \<not> strict_eq v key) \<longleftrightarrow>
            (\<forall>j < d. \<forall>v. es ! j = Some v \<longrightarrow> \<not> strict_eq v key)"
        using False by (auto simp: nth_Cons less_Suc_eq_0_disj split: nat.splits)
      then show ?thesis using gt d by auto
    qed
    ultimately show ?thesis using Cons.IH [of "Suc k"] by simp
  qed
qed

lemma indexOf_first:
  "indexOf a key = Some t \<longleftrightarrow>
     t < length a \<and> (\<exists>v. a ! t = Some v \<and> strict_eq v key) \<and>
     (\<forall>j < t. \<forall>v. a ! j = Some v \<longrightarrow> \<not> strict_eq v key)"
  by (simp add: indexOf_def indexOf_from_Some)

lemma indexOf_at: "indexOf a key = Some t \<Longrightarrow> js_at a t = key"
  by (auto simp: indexOf_first js_at_def strict_eq_def)


lemma visited_dense: "visited (dense vs) = vs"
  by (induction vs) (simp_all add: visited_def dense_def)

lemma rowmap_of_Cons:
  "rowmap_of source target (key # keys) =
     (case indexOf target key of None \<Rightarrow> [] | Some t \<Rightarrow> [(indexOf source key, t)])
     @ rowmap_of source target keys"
  by (simp add: rowmap_of_def)

lemma copy_fold_at:
  "js_at (foldl (\<lambda>vs st. js_put vs (snd st)
                  (case fst st of None \<Rightarrow> Undefined | Some s \<Rightarrow> js_at sc s))
            a0 (rowmap_of source target keys)) t =
     (if \<exists>key \<in> set keys. indexOf target key = Some t
      then (case indexOf source (js_at target t) of None \<Rightarrow> Undefined | Some s \<Rightarrow> js_at sc s)
      else js_at a0 t)"
proof (induction keys arbitrary: a0)
  case Nil
  then show ?case by (simp add: rowmap_of_def)
next
  case (Cons key keys)
  show ?case
  proof (cases "indexOf target key")
    case None
    then show ?thesis using Cons.IH [of a0] by (simp add: rowmap_of_Cons)
  next
    case (Some tr)
    then have k: "js_at target tr = key" by (rule indexOf_at)
    show ?thesis
      using Some k Cons.IH [of "js_put a0 tr (case indexOf source key of None \<Rightarrow> Undefined | Some s \<Rightarrow> js_at sc s)"]
      by (auto simp: rowmap_of_Cons js_at_js_put)
  qed
qed

lemma copy_rows_at:
  "js_at (copy_rows sc (rowmap_of source target keys)) t = joined source target keys sc t"
proof -
  have "(\<exists>key \<in> set keys. indexOf target key = Some t) \<longleftrightarrow>
        (js_at target t \<in> set keys \<and> indexOf target (js_at target t) = Some t)"
    using indexOf_at by metis
  moreover have "js_at [] t = Undefined" by (simp add: js_at_def)
  ultimately show ?thesis
    unfolding copy_rows_def copy_fold_at joined_def by simp
qed


lemma ebind_Inr: "ebind (Inr x) f = f x"
  by (simp add: ebind_def)

lemma defined_column:
  assumes "list_all (\<lambda>kc. snd kc \<noteq> None) (columns F)" and "n \<in> set (names F)"
  shows "\<exists>c. column F n = Some c"
proof -
  from assms(2) obtain v where v: "map_of (columns F) n = Some v"
    by (auto simp: names_def Object_keys_def) (metis domD dom_map_of_conv_image_fst fst_conv image_eqI)
  then have "(n, v) \<in> set (columns F)" by (rule map_of_SomeD)
  then have "v \<noteq> None" using assms(1) by (auto simp: list_all_iff)
  then show ?thesis using v by (auto simp: column_def)
qed

lemma new_DataFrame_defined:
  assumes "\<forall>kc \<in> set cols. snd kc \<noteq> None"
  shows "\<exists>R. new_DataFrame cols None = Inr R \<and> columns R = cols"
proof (cases cols)
  case Nil
  then show ?thesis by (simp add: new_DataFrame_def)
next
  case (Cons kc rest)
  then obtain n c where "kc = (n, Some c)" using assms by (cases kc) auto
  then show ?thesis using Cons by (simp add: new_DataFrame_def)
qed

lemma leftJoin_general:
  assumes fk: "column F k = Some fk" and gk: "column G k = Some gk"
    and dF: "distinct (names F)"
    and aF: "list_all (\<lambda>kc. snd kc \<noteq> None) (columns F)"
    and aG: "list_all (\<lambda>kc. snd kc \<noteq> None) (columns G)"
  shows "\<exists>R. leftJoin F G k = Inr R \<and>
           (\<forall>n gc. n \<noteq> k \<longrightarrow> column G n = Some gc \<longrightarrow>
              (\<exists>arr. column R n = Some (series arr) \<and>
                 (\<forall>t. js_at arr t =
                    joined (values_of gk) (values_of fk)
                      (map (\<lambda>i. js_at (values_of gk) i) (index G)) (values_of gc) t))) \<and>
           (\<forall>n. n = k \<or> n \<notin> set (names G) \<longrightarrow> column R n = column F n)"
proof -
  define keys where "keys = map (\<lambda>i. js_at (values_of gk) i) (index G)"
  define rowmap where "rowmap = rowmap_of (values_of gk) (values_of fk) keys"
  define ns where "ns = filter (\<lambda>n. n \<noteq> k) (names G)"
  define f where "f = (\<lambda>n. Some (series (copy_rows (values_of (the (column G n))) rowmap)))"
  define B where "B = Object_assign [] (map (\<lambda>n. [(n, f n)]) ns)"
  have vk: "values_df G k = Inr (dense keys)"
    using gk by (simp add: values_df_eq keys_def)
  have "\<forall>n \<in> set ns. ebind (values_in (column G n))
          (\<lambda>sc. Inr [(n, Some (series (copy_rows sc rowmap)))]) = Inr [(n, f n)]"
  proof
    fix n assume "n \<in> set ns"
    then have "n \<in> set (names G)" by (simp add: ns_def)
    then obtain c where "column G n = Some c" using defined_column [OF aG] by blast
    then show "ebind (values_in (column G n))
          (\<lambda>sc. Inr [(n, Some (series (copy_rows sc rowmap)))]) = Inr [(n, f n)]"
      by (simp add: values_in_def ebind_def f_def)
  qed
  then have em: "emap (\<lambda>n. ebind (values_in (column G n))
          (\<lambda>sc. Inr [(n, Some (series (copy_rows sc rowmap)))])) ns = Inr (map (\<lambda>n. [(n, f n)]) ns)"
    by (rule emap_all_Inr)
  have sB: "\<forall>kc \<in> set B. snd kc \<noteq> None"
    using set_Object_assign [of "[]" "map (\<lambda>n. [(n, f n)]) ns"] by (auto simp: B_def f_def)
  from new_DataFrame_defined [OF sB] obtain added where
    added: "new_DataFrame B None = Inr added" "columns added = B" by blast
  have dcF: "distinct (map fst (columns F))"
    using dF by (simp add: names_def Object_keys_def)
  have merged: "Object_assign [] [columns F, B] = assign_one (columns F) B"
    using assign_one_distinct [of "[]" "columns F"] dcF by (simp add: Object_assign_def)
  have "\<forall>kc \<in> set (assign_one (columns F) B). snd kc \<noteq> None"
    using set_assign_one [of "columns F" B] sB aF by (auto simp: list_all_iff)
  from new_DataFrame_defined [OF this] obtain R where
    R: "new_DataFrame (assign_one (columns F) B) None = Inr R" "columns R = assign_one (columns F) B"
    by blast
  have s1: "values_in (column G k) = Inr (values_of gk)" "values_in (column F k) = Inr (values_of fk)"
    by (simp_all add: values_in_def gk fk)
  have "leftJoin F G k = join F added"
    unfolding leftJoin_def s1 ebind_Inr vk visited_dense ns_def [symmetric] rowmap_def [symmetric]
      em B_def [symmetric] added(1)
    by (rule refl)
  then have lj: "leftJoin F G k = Inr R"
    by (simp add: join_def added(2) merged R(1))
  have dB: "distinct (map fst B)"
    unfolding B_def by (rule distinct_Object_assign) simp
  have mB: "map_of B n = (if n \<in> set ns then Some (f n) else None)" for n
    unfolding B_def Object_assign_def by (simp add: map_of_singletons)
  have mR: "map_of (columns R) = map_of (columns F) ++ map_of B"
    by (simp add: R(2) map_of_assign_one map_of_rev_distinct [OF dB])
  have new: "\<exists>arr. column R n = Some (series arr) \<and>
                 (\<forall>t. js_at arr t = joined (values_of gk) (values_of fk) keys (values_of gc) t)"
    if "n \<noteq> k" "column G n = Some gc" for n gc
  proof -
    have "n \<in> set (names G)"
      using that(2) column_unknown [of n G] by auto
    then have "n \<in> set ns" using that(1) by (simp add: ns_def)
    then have "column R n = Some (series (copy_rows (values_of gc) rowmap))"
      using that(2) by (simp add: column_def mR mB f_def map_add_def)
    then show ?thesis
      unfolding rowmap_def using copy_rows_at by blast
  qed
  have old: "column R n = column F n" if "n = k \<or> n \<notin> set (names G)" for n
  proof -
    have "n \<notin> set ns" using that by (auto simp: ns_def)
    then show ?thesis by (simp add: column_def mR mB map_add_def)
  qed
  from lj new old show ?thesis unfolding keys_def by blast
qed

lemma fromRecords_left: "fromRecords left_records
      = Inr \<lparr>columns = [(''k'', Some (TextSeries [Some (Str ''x''), Some (Str ''y'')]))], index = [0, 1]\<rparr>"
    by (simp add: left_records_def fromRecords_def transpose_records_def put_cell_def
        new_DataFrame_def Object_assign_def assign_one_def series_def of_type_def js_at_def js_put_def
        upt_rec)
lemma fromRecords_right: "fromRecords right_records
      = Inr \<lparr>columns = [(''k'', Some (TextSeries [Some (Str ''y''), Some (Str ''z'')])),
                        (''p'', Some (Series [Some (Num (Fin 10)), Some (Num (Fin 20))]))], index = [0, 1]\<rparr>"
    by (simp add: right_records_def fromRecords_def transpose_records_def put_cell_def
        new_DataFrame_def Object_assign_def assign_one_def series_def of_type_def js_at_def js_put_def
        upt_rec)

lemma leftJoin_left_right: "leftJoin \<lparr>columns = [(''k'', Some (TextSeries [Some (Str ''x''), Some (Str ''y'')]))], index = [0, 1]\<rparr>
       \<lparr>columns = [(''k'', Some (TextSeries [Some (Str ''y''), Some (Str ''z'')])),
                        (''p'', Some (Series [Some (Num (Fin 10)), Some (Num (Fin 20))]))], index = [0, 1]\<rparr> ''k''
     = Inr \<lparr>columns = [(''k'', Some (TextSeries [Some (Str ''x''), Some (Str ''y'')])),
                       (''p'', Some (Series [None, Some (Num (Fin 10))]))], index = [0, 1]\<rparr>"
    by (simp add: leftJoin_def values_in_def column_def ebind_def values_df_def dense_def js_at_def
        visited_def names_def Object_keys_def rowmap_of_def indexOf_def strict_eq_def copy_rows_def
        js_put_def series_def of_type_def new_DataFrame_def Object_assign_def assign_one_def join_def
        upt_rec)

lemma leftJoin_concrete:
  "ebind (fromRecords left_records) (\<lambda>F. ebind (fromRecords right_records)
       (\<lambda>G. ebind (leftJoin F G ''k'') (\<lambda>R. values_df R ''p'')))
     = Inr (dense [Undefined, Num (Fin 10)])"
  unfolding fromRecords_left fromRecords_right leftJoin_left_right ebind_Inr
  by (simp add: values_df_def values_in_def column_def ebind_def dense_def js_at_def)

text \<open>
  C5: let \<open>F\<close> (distinct column names) and \<open>G\<close> have all columns defined and both a column
  \<open>k\<close>. Then \<^verbatim>\<open>F.leftJoin(G, k)\<close> returns a Frame in which every column of \<open>G\<close> other than
  \<open>k\<close> is a new series holding, at each position that is the first one of \<open>F\<close>'s key column
  for a key visible in \<open>G\<close>, \<open>G\<close>'s value at the first position of \<open>G\<close>'s key column with
  that key, and nothing at every other position; the column \<open>k\<close> and the columns \<open>G\<close> does
  not name are \<open>F\<close>'s. \<^verbatim>\<open>indexOf\<close> finds exactly the first position holding a key. With the
  keys \<open>["x","y"]\<close> and \<open>["y","z"]\<close> and the payload \<open>p = [10,20]\<close> the new column \<open>p\<close> reads
  \<open>[absent, 10]\<close>.
\<close>

theorem leftJoin_first_occurrence:
  assumes "column F k = Some fk" and "column G k = Some gk" and "distinct (names F)"
    and "list_all (\<lambda>kc. snd kc \<noteq> None) (columns F)"
    and "list_all (\<lambda>kc. snd kc \<noteq> None) (columns G)"
  shows "(\<exists>R. leftJoin F G k = Inr R \<and>
           (\<forall>n gc. n \<noteq> k \<longrightarrow> column G n = Some gc \<longrightarrow>
              (\<exists>arr. column R n = Some (series arr) \<and>
                 (\<forall>t. js_at arr t =
                    joined (values_of gk) (values_of fk)
                      (map (\<lambda>i. js_at (values_of gk) i) (index G)) (values_of gc) t))) \<and>
           (\<forall>n. n = k \<or> n \<notin> set (names G) \<longrightarrow> column R n = column F n)) \<and>
         (indexOf a key = Some t \<longleftrightarrow>
            t < length a \<and> (\<exists>v. a ! t = Some v \<and> strict_eq v key) \<and>
            (\<forall>j < t. \<forall>v. a ! j = Some v \<longrightarrow> \<not> strict_eq v key)) \<and>
         ebind (fromRecords left_records) (\<lambda>F. ebind (fromRecords right_records)
             (\<lambda>G. ebind (leftJoin F G ''k'') (\<lambda>R. values_df R ''p'')))
           = Inr (dense [Undefined, Num (Fin 10)])"
  by (intro conjI leftJoin_general [OF assms] indexOf_first leftJoin_concrete)


lemma joined_dup:
  "joined [Some (Str ''y''), Some (Str ''y''), Some (Str ''z'')]
      [Some (Str ''y''), Some (Str ''x''), Some (Str ''y'')]
      (map (\<lambda>i. js_at [Some (Str ''y''), Some (Str ''y''), Some (Str ''z'')] i) [1, 0, 2])
      [Some (Num (Fin 10)), Some (Num (Fin 20)), Some (Num (Fin 30))] 0 = Num (Fin 10)"
  "joined [Some (Str ''y''), Some (Str ''y''), Some (Str ''z'')]
      [Some (Str ''y''), Some (Str ''x''), Some (Str ''y'')]
      (map (\<lambda>i. js_at [Some (Str ''y''), Some (Str ''y''), Some (Str ''z'')] i) [1, 0, 2])
      [Some (Num (Fin 10)), Some (Num (Fin 20)), Some (Num (Fin 30))] 1 = Undefined"
  "joined [Some (Str ''y''), Some (Str ''y''), Some (Str ''z'')]
      [Some (Str ''y''), Some (Str ''x''), Some (Str ''y'')]
      (map (\<lambda>i. js_at [Some (Str ''y''), Some (Str ''y''), Some (Str ''z'')] i) [1, 0, 2])
      [Some (Num (Fin 10)), Some (Num (Fin 20)), Some (Num (Fin 30))] 2 = Undefined"
  by (simp_all add: joined_def js_at_def indexOf_def strict_eq_def)

theorem leftJoin_first_occurrence_witness:
  "\<exists>R arr. leftJoin left_dup right_dup ''k'' = Inr R \<and>
      column R ''p'' = Some (series arr) \<and>
      js_at arr 0 = Num (Fin 10) \<and> js_at arr 1 = Undefined \<and> js_at arr 2 = Undefined \<and>
      column R ''k'' = column left_dup ''k''"
proof -
  have c: "column left_dup ''k'' = Some (TextSeries [Some (Str ''y''), Some (Str ''x''), Some (Str ''y'')])"
    "column right_dup ''k'' = Some (TextSeries [Some (Str ''y''), Some (Str ''y''), Some (Str ''z'')])"
    by (simp_all add: column_def left_dup_def right_dup_def)
  have p: "column right_dup ''p'' = Some (Series [Some (Num (Fin 10)), Some (Num (Fin 20)), Some (Num (Fin 30))])"
    by (simp add: column_def right_dup_def)
  have d: "distinct (names left_dup)" "list_all (\<lambda>kc. snd kc \<noteq> None) (columns left_dup)"
    "list_all (\<lambda>kc. snd kc \<noteq> None) (columns right_dup)"
    by (simp_all add: names_def Object_keys_def left_dup_def right_dup_def)
  have i: "index right_dup = [1, 0, 2]" by (simp add: right_dup_def)
  from leftJoin_first_occurrence [OF c(1) c(2) d, THEN conjunct1]
  obtain R where R: "leftJoin left_dup right_dup ''k'' = Inr R"
    and new: "\<And>n gc. n \<noteq> ''k'' \<Longrightarrow> column right_dup n = Some gc \<Longrightarrow>
       (\<exists>arr. column R n = Some (series arr) \<and>
          (\<forall>t. js_at arr t = joined (values_of (TextSeries [Some (Str ''y''), Some (Str ''y''), Some (Str ''z'')]))
              (values_of (TextSeries [Some (Str ''y''), Some (Str ''x''), Some (Str ''y'')]))
              (map (\<lambda>i. js_at (values_of (TextSeries [Some (Str ''y''), Some (Str ''y''), Some (Str ''z'')])) i)
                 (index right_dup))
              (values_of gc) t))"
    and old: "\<And>n. n = ''k'' \<or> n \<notin> set (names right_dup) \<Longrightarrow> column R n = column left_dup n"
    by blast
  have "''p'' \<noteq> ''k''" by simp
  from new [OF this p] obtain arr where arr: "column R ''p'' = Some (series arr)"
    and at: "\<And>t. js_at arr t = joined [Some (Str ''y''), Some (Str ''y''), Some (Str ''z'')]
      [Some (Str ''y''), Some (Str ''x''), Some (Str ''y'')]
      (map (\<lambda>i. js_at [Some (Str ''y''), Some (Str ''y''), Some (Str ''z'')] i) [1, 0, 2])
      [Some (Num (Fin 10)), Some (Num (Fin 20)), Some (Num (Fin 30))] t"
    unfolding i values_of.simps by blast
  have "js_at arr 0 = Num (Fin 10)" "js_at arr 1 = Undefined" "js_at arr 2 = Undefined"
    unfolding at by (rule joined_dup)+
  moreover have "column R ''k'' = column left_dup ''k''" by (rule old) simp
  ultimately show ?thesis using R arr by blast
qed

section \<open>The correlation matrix\<close>

lemma dense_read_all:
  "list_all (\<lambda>e. e \<noteq> None) vs \<Longrightarrow> dense (map (\<lambda>i. js_at vs i) [0..<length vs]) = vs"
proof (rule nth_equalityI)
  show "length (dense (map (\<lambda>i. js_at vs i) [0..<length vs])) = length vs"
    by (simp add: dense_def)
next
  fix i assume "i < length (dense (map (\<lambda>i. js_at vs i) [0..<length vs]))"
  then have i: "i < length vs" by (simp add: dense_def)
  moreover assume "list_all (\<lambda>e. e \<noteq> None) vs"
  ultimately obtain v where "vs ! i = Some v" by (auto simp: list_all_length)
  then show "dense (map (\<lambda>i. js_at vs i) [0..<length vs]) ! i = vs ! i"
    using i by (simp add: dense_def js_at_def)
qed

lemma plain_column:
  assumes "plain F" and "A \<in> set (names F)"
  shows "\<exists>c. column F A = Some c \<and> values_df F A = Inr (values_of c) \<and> visible_of F A = values_of c"
proof -
  from assms(2) obtain v where v: "map_of (columns F) A = Some v"
    by (auto simp: names_def Object_keys_def) (metis domD dom_map_of_conv_image_fst fst_conv image_eqI)
  then have m: "(A, v) \<in> set (columns F)" by (rule map_of_SomeD)
  have n1: "\<forall>kc \<in> set (columns F). case snd kc of None \<Rightarrow> False
      | Some c \<Rightarrow> length (values_of c) = length (index F)"
    using assms(1) unfolding plain_def natural_def list_all_iff by blast
  have n2: "\<forall>kc \<in> set (columns F). case snd kc of None \<Rightarrow> False
      | Some c \<Rightarrow> list_all (\<lambda>e. e \<noteq> None) (values_of c)"
    using assms(1) unfolding plain_def list_all_iff by blast
  from bspec [OF n1 m] bspec [OF n2 m] obtain c where c: "v = Some c"
    "length (values_of c) = length (index F)" "list_all (\<lambda>e. e \<noteq> None) (values_of c)"
    by (cases v) simp_all
  have col: "column F A = Some c" using v c(1) by (simp add: column_def)
  have idx: "index F = [0..<length (values_of c)]"
    using assms(1) c(2) by (simp add: plain_def natural_def)
  have "values_df F A = Inr (dense (map (\<lambda>i. js_at (values_of c) i) [0..<length (values_of c)]))"
    using values_df_eq [OF col] idx by simp
  then have "values_df F A = Inr (values_of c)"
    by (simp only: dense_read_all [OF c(3)])
  then show ?thesis using col by (simp add: visible_of_def)
qed

lemma matrix_rows:
  assumes "\<forall>B \<in> set bs. \<forall>A \<in> set as. cell A B = Inr (Num (g A B))"
  shows "emap (\<lambda>B. ebind (emap (\<lambda>A. cell A B) as) (\<lambda>results. Inr [(B, Some (Series (dense results)))])) bs
           = Inr (map (\<lambda>B. [(B, Some (Series (dense (map (\<lambda>A. Num (g A B)) as))))]) bs)"
proof (rule emap_all_Inr, rule ballI)
  fix B assume "B \<in> set bs"
  then have "\<forall>A \<in> set as. cell A B = Inr (Num (g A B))" using assms by blast
  then have "emap (\<lambda>A. cell A B) as = Inr (map (\<lambda>A. Num (g A B)) as)"
    by (rule emap_all_Inr)
  then show "ebind (emap (\<lambda>A. cell A B) as) (\<lambda>results. Inr [(B, Some (Series (dense results)))])
      = Inr [(B, Some (Series (dense (map (\<lambda>A. Num (g A B)) as))))]"
    by (simp add: ebind_Inr)
qed

lemma matrix_frame:
  "\<exists>R. new_DataFrame (Object_assign [(key, Some first)] (map (\<lambda>B. [(B, Some (f B))]) bs)) None = Inr R \<and>
       (key \<notin> set bs \<longrightarrow> column R key = Some first) \<and>
       (\<forall>B \<in> set bs. column R B = Some (f B))"
proof -
  let ?cols = "Object_assign [(key, Some first)] (map (\<lambda>B. [(B, Some (f B))]) bs)"
  have "\<forall>kc \<in> set ?cols. snd kc \<noteq> None"
    using set_Object_assign [of "[(key, Some first)]" "map (\<lambda>B. [(B, Some (f B))]) bs"] by auto
  from new_DataFrame_defined [OF this] obtain R where R: "new_DataFrame ?cols None = Inr R" "columns R = ?cols"
    by blast
  have "map_of (columns R) x = (if x \<in> set bs then Some (Some (f x)) else map_of [(key, Some first)] x)" for x
    unfolding R(2) Object_assign_def by (rule map_of_singletons)
  then have "(key \<notin> set bs \<longrightarrow> column R key = Some first) \<and> (\<forall>B \<in> set bs. column R B = Some (f B))"
    by (simp add: column_def)
  with R(1) show ?thesis by blast
qed


lemma matrix_part:
  assumes "plain F" and "plain G"
  shows "\<exists>R. correlationMatrix corr F G = Inr R \<and>
           (''Name'' \<notin> set (names G) \<longrightarrow>
              column R ''Name'' = Some (TextSeries (dense (map Str (names F))))) \<and>
           (\<forall>B \<in> set (names G).
              column R B = Some (Series (dense (map (\<lambda>A. Num (corr (visible_of G B) (visible_of F A)))
                                                 (names F)))))"
proof -
  have cells: "\<forall>B \<in> set (names G). \<forall>A \<in> set (names F).
      ebind (values_in (column G B)) (\<lambda>sc. ebind (values_in (column F A)) (\<lambda>sr. Inr (Num (corr sc sr))))
        = Inr (Num (corr (visible_of G B) (visible_of F A)))"
  proof (intro ballI)
    fix B A assume "B \<in> set (names G)" "A \<in> set (names F)"
    then obtain cB cA where "column G B = Some cB" "visible_of G B = values_of cB"
      "column F A = Some cA" "visible_of F A = values_of cA"
      using plain_column [OF assms(2)] plain_column [OF assms(1)] by metis
    then show "ebind (values_in (column G B)) (\<lambda>sc. ebind (values_in (column F A)) (\<lambda>sr. Inr (Num (corr sc sr))))
        = Inr (Num (corr (visible_of G B) (visible_of F A)))"
      by (simp add: values_in_def ebind_def)
  qed
  show ?thesis
    unfolding correlationMatrix_def matrix_rows [OF cells] ebind_Inr
    by (rule matrix_frame)
qed

lemma matrix_ts:
  assumes "plain F" and "plain G" and "all_Series F" and "all_Series G"
  shows "\<exists>R. correlationMatrix_ts F G = Inr R \<and>
           (''Keys'' \<notin> set (names G) \<longrightarrow>
              column R ''Keys'' = Some (TextSeries (dense (map Str (names F))))) \<and>
           (\<forall>B \<in> set (names G).
              column R B = Some (Series (dense (map (\<lambda>A. Num (Series_correlation (visible_of F A) (visible_of G B)))
                                                 (names F)))))"
proof -
  have ser: "\<exists>a. c = Series a" if "column H n = Some c" "all_Series H" for H n c
  proof -
    from that(1) have "(n, Some c) \<in> set (columns H)"
      by (auto simp: column_def split: option.splits dest: map_of_SomeD)
    with that(2) show ?thesis
      unfolding all_Series_def list_all_iff by (cases c) fastforce+
  qed
  have cells: "\<forall>B \<in> set (names G). \<forall>A \<in> set (names F).
      ebind (method_correlation (column F A) (column G B)) (\<lambda>coef. Inr (Num coef))
        = Inr (Num (Series_correlation (visible_of F A) (visible_of G B)))"
  proof (intro ballI)
    fix B A assume "B \<in> set (names G)" "A \<in> set (names F)"
    then obtain cB cA where c: "column G B = Some cB" "visible_of G B = values_of cB"
      "column F A = Some cA" "visible_of F A = values_of cA"
      using plain_column [OF assms(2)] plain_column [OF assms(1)] by metis
    from ser [OF c(1) assms(4)] ser [OF c(3) assms(3)] obtain b a where "cB = Series b" "cA = Series a"
      by blast
    then show "ebind (method_correlation (column F A) (column G B)) (\<lambda>coef. Inr (Num coef))
        = Inr (Num (Series_correlation (visible_of F A) (visible_of G B)))"
      using c by (simp add: method_correlation_def ebind_def)
  qed
  show ?thesis
    unfolding correlationMatrix_ts_def matrix_rows [OF cells] ebind_Inr
    by (rule matrix_frame)
qed

lemma pearson_values:
  "Series_correlation [Some (Num (Fin 1)), Some (Num (Fin 2)), Some (Num (Fin 3))]
      [Some (Num (Fin 1)), Some (Num (Fin 2)), Some (Num (Fin 1))] = Fin 0"
  "Series_correlation [Some (Num (Fin 1)), Some (Num (Fin 2)), Some (Num (Fin 1))]
      [Some (Num (Fin 1)), Some (Num (Fin 2)), Some (Num (Fin 3))] = Fin 0"
  "Series_correlation [Some (Num (Fin 1)), Some (Num (Fin 2))] [Some (Num (Fin 1)), Some (Num (Fin 2))] = Fin 1"
  by (simp_all add: Series_correlation_def Let_def Series_sum_def visited_def pow2_def dot_def
      Series_derive_def js_sub_def js_at_def dense_def upt_rec)


lemma matrix_sliced:
  "correlationMatrix_ts sliced_x sliced_y
     = Inr \<lparr>columns = [(''Keys'', Some (TextSeries [Some (Str ''x'')])),
                       (''y'', Some (Series [Some (Num (Fin 0))]))], index = [0]\<rparr>"
  "correlationMatrix Series_correlation sliced_x sliced_y
     = Inr \<lparr>columns = [(''Name'', Some (TextSeries [Some (Str ''x'')])),
                       (''y'', Some (Series [Some (Num (Fin 0))]))], index = [0]\<rparr>"
  by (simp_all add: correlationMatrix_ts_def correlationMatrix_def sliced_x_def sliced_y_def names_def
      Object_keys_def column_def method_correlation_def values_in_def pearson_values ebind_def
      dense_def Object_assign_def assign_one_def new_DataFrame_def)

lemma matrix_mixed_ts: "correlationMatrix_ts mixed_ns mixed_ns = Inl TypeError"
  by (simp add: correlationMatrix_ts_def mixed_ns_def names_def Object_keys_def column_def
      method_correlation_def ebind_def)

lemma plain_mixed: "plain mixed_ns"
  by (simp add: plain_def natural_def mixed_ns_def upt_rec)

text \<open>
  C3, as stated, fails. On the sliced Frames the visible values of \<open>x\<close> and of \<open>y\<close> are both
  \<open>[1, 2]\<close>, whose coefficient (by the formula of \<^verbatim>\<open>Series.correlation\<close>) is 1, yet the cell
  \<open>(x, y)\<close> is 0 in both revisions: the coefficient of the stored arrays \<open>[1, 2, 3]\<close> and
  \<open>[1, 2, 1]\<close>. And on the Frame with a text column part_000 names a row after the text
  column \<open>s\<close> too, while src/src/dataframe.ts raises.
\<close>

theorem matrix_over_storage_and_all_names:
  "values_df sliced_x ''x'' = Inr (dense [Num (Fin 1), Num (Fin 2)]) \<and>
   values_df sliced_y ''y'' = Inr (dense [Num (Fin 1), Num (Fin 2)]) \<and>
   Series_correlation (dense [Num (Fin 1), Num (Fin 2)]) (dense [Num (Fin 1), Num (Fin 2)]) = Fin 1 \<and>
   ebind (correlationMatrix_ts sliced_x sliced_y) (\<lambda>R. Inr (column R ''y''))
     = Inr (Some (Series (dense [Num (Fin 0)]))) \<and>
   ebind (correlationMatrix Series_correlation sliced_x sliced_y) (\<lambda>R. Inr (column R ''y''))
     = Inr (Some (Series (dense [Num (Fin 0)]))) \<and>
   ebind (correlationMatrix Series_correlation mixed_ns mixed_ns) (\<lambda>R. Inr (column R ''Name''))
     = Inr (Some (TextSeries (dense [Str ''n'', Str ''s'']))) \<and>
   correlationMatrix_ts mixed_ns mixed_ns = Inl TypeError"
proof -
  have 1: "values_df sliced_x ''x'' = Inr (dense [Num (Fin 1), Num (Fin 2)])"
    "values_df sliced_y ''y'' = Inr (dense [Num (Fin 1), Num (Fin 2)])"
    by (simp_all add: sliced_x_def sliced_y_def values_df_def values_in_def column_def ebind_def
        dense_def js_at_def)
  have 2: "Series_correlation (dense [Num (Fin 1), Num (Fin 2)]) (dense [Num (Fin 1), Num (Fin 2)]) = Fin 1"
    using pearson_values(3) by (simp add: dense_def)
  have 3: "ebind (correlationMatrix_ts sliced_x sliced_y) (\<lambda>R. Inr (column R ''y''))
     = Inr (Some (Series (dense [Num (Fin 0)])))"
    "ebind (correlationMatrix Series_correlation sliced_x sliced_y) (\<lambda>R. Inr (column R ''y''))
     = Inr (Some (Series (dense [Num (Fin 0)])))"
    unfolding matrix_sliced ebind_Inr by (simp_all add: column_def dense_def)
  from matrix_part [OF plain_mixed plain_mixed, of Series_correlation]
  obtain R where R: "correlationMatrix Series_correlation mixed_ns mixed_ns = Inr R"
    "''Name'' \<notin> set (names mixed_ns) \<longrightarrow>
       column R ''Name'' = Some (TextSeries (dense (map Str (names mixed_ns))))"
    by blast
  have "names mixed_ns = [''n'', ''s'']"
    by (simp add: names_def Object_keys_def mixed_ns_def)
  with R(2) have "column R ''Name'' = Some (TextSeries (dense [Str ''n'', Str ''s'']))"
    by simp
  then have 4: "ebind (correlationMatrix Series_correlation mixed_ns mixed_ns) (\<lambda>R. Inr (column R ''Name''))
     = Inr (Some (TextSeries (dense [Str ''n'', Str ''s''])))"
    unfolding R(1) ebind_Inr by simp
  from 1 2 3 4 matrix_mixed_ts show ?thesis by (intro conjI)
qed


text \<open>
  C3, amended: for plain Frames \<open>F\<close> and \<open>G\<close>, \<^verbatim>\<open>F.correlationMatrix(G)\<close> of part_000 returns
  a Frame whose column \<open>Name\<close> lists all column names of \<open>F\<close> (unless \<open>G\<close> has a column of that
  name) and which has, for every column name \<open>B\<close> of \<open>G\<close>, a Series whose entry for the row
  \<open>A\<close> is the value of the function \<^verbatim>\<open>correlation\<close> on the visible values of \<open>B\<close> in \<open>G\<close> and of
  \<open>A\<close> in \<open>F\<close>. In src/src/dataframe.ts the same holds with the column \<open>Keys\<close> and the
  coefficient of \<^verbatim>\<open>Series.correlation\<close>, when all columns of both Frames are of the class
  \<^verbatim>\<open>Series\<close>.
\<close>

theorem correlationMatrix_natural:
  assumes "plain F" and "plain G"
  shows "(\<exists>R. correlationMatrix corr F G = Inr R \<and>
            (''Name'' \<notin> set (names G) \<longrightarrow>
               column R ''Name'' = Some (TextSeries (dense (map Str (names F))))) \<and>
            (\<forall>B \<in> set (names G).
               column R B = Some (Series (dense (map (\<lambda>A. Num (corr (visible_of G B) (visible_of F A)))
                                                  (names F)))))) \<and>
         (all_Series F \<longrightarrow> all_Series G \<longrightarrow>
            (\<exists>R. correlationMatrix_ts F G = Inr R \<and>
               (''Keys'' \<notin> set (names G) \<longrightarrow>
                  column R ''Keys'' = Some (TextSeries (dense (map Str (names F))))) \<and>
               (\<forall>B \<in> set (names G).
                  column R B = Some (Series (dense (map (\<lambda>A. Num (Series_correlation (visible_of F A) (visible_of G B)))
                                                     (names F)))))))"
  using matrix_part [OF assms, of corr] matrix_ts [OF assms] by blast

theorem correlationMatrix_natural_witness:
  "(\<exists>R. correlationMatrix Series_correlation plain_x plain_y = Inr R \<and>
        column R ''Name'' = Some (TextSeries (dense [Str ''x''])) \<and>
        column R ''y'' = Some (Series (dense [Num (Fin 0)]))) \<and>
   (\<exists>R. correlationMatrix_ts plain_x plain_y = Inr R \<and>
        column R ''Keys'' = Some (TextSeries (dense [Str ''x''])) \<and>
        column R ''y'' = Some (Series (dense [Num (Fin 0)])))"
proof -
  have p: "plain plain_x" "plain plain_y" "all_Series plain_x" "all_Series plain_y"
    by (simp_all add: plain_def natural_def all_Series_def plain_x_def plain_y_def upt_rec)
  have n: "names plain_x = [''x'']" "names plain_y = [''y'']"
    by (simp_all add: names_def Object_keys_def plain_x_def plain_y_def)
  have v: "visible_of plain_x ''x'' = [Some (Num (Fin 1)), Some (Num (Fin 2)), Some (Num (Fin 3))]"
    "visible_of plain_y ''y'' = [Some (Num (Fin 1)), Some (Num (Fin 2)), Some (Num (Fin 1))]"
    by (simp_all add: visible_of_def values_df_def values_in_def column_def ebind_def dense_def
        js_at_def plain_x_def plain_y_def)
  show ?thesis
    using correlationMatrix_natural [OF p(1) p(2), of Series_correlation] p(3) p(4)
    by (simp add: n v pearson_values)
qed

end
